theory Spec2Isabelle
  imports Complex_Main
begin

text \<open>
  A model of the client-side pattern-to-geometry code: the history of adjusted points in
  the application store, the local feature detection on image data with its spacing filter,
  the mock point generator and the extraction query that chooses between them, and the mock
  mesh generators. JavaScript numbers are real numbers here, arrays are lists, a thrown
  error is the left summand of a sum type, and \<^verbatim>\<open>Math.random\<close>, the clock and the answers of
  the server are arguments.
\<close>

section \<open>Shared data model\<close>

text \<open>
  The store's \<^verbatim>\<open>Point2D\<close> interface (x, y, weight, feature_type). JavaScript numbers are
  modelled as real numbers. The fields carry a prefix because \<open>x\<close> and \<open>y\<close> are wanted as
  variable names below.
\<close>

record Point2D =
  pt_x :: real
  pt_y :: real
  pt_weight :: real
  pt_feature_type :: string

datatype js_error = TypeError | Error string

text \<open>
  The identifiers are template literals around \<^verbatim>\<open>Date.now()\<close>
  (\<^verbatim>\<open>mock-${Date.now()}\<close>, \<^verbatim>\<open>local-${Date.now()}\<close>); the clock reading is an argument.
\<close>

datatype resource_id = ServerId string | LocalId nat | MockId nat

text \<open>A call to the server either answers or fails.\<close>

datatype 'r api_outcome = ApiOk 'r | ApiFailed

text \<open>Sequencing of two fallible steps: the first error raised ends the run.\<close>

definition and_then :: "js_error + 'a \<Rightarrow> ('a \<Rightarrow> js_error + 'b) \<Rightarrow> js_error + 'b" where
  "and_then r f = (case r of Inl e \<Rightarrow> Inl e | Inr v \<Rightarrow> f v)"

text \<open>
  \<^verbatim>\<open>Array.prototype.slice(0, end)\<close>: a negative end counts from the end of the array, and
  an end past either bound of the array is clamped.
\<close>

definition slice0 :: "'a list \<Rightarrow> int \<Rightarrow> 'a list" where
  "slice0 xs e = (if e < 0 then take (nat (int (length xs) + e)) xs else take (nat e) xs)"

section \<open>The application store: points history, undo and redo\<close>

text \<open>
  The part of the zustand store that \<^verbatim>\<open>setAdjustedPoints\<close>, \<^verbatim>\<open>addPointsToHistory\<close>,
  \<^verbatim>\<open>undo\<close> and \<^verbatim>\<open>redo\<close> read and write. Every other field of the store is left
  untouched by these four actions.
\<close>

record store =
  adjustedPoints :: "Point2D list"
  pointsHistory :: "Point2D list list"
  pointsHistoryIndex :: int
  canUndo :: bool
  canRedo :: bool

definition addPointsToHistory :: "Point2D list \<Rightarrow> store \<Rightarrow> store" where
  "addPointsToHistory points s =
     (let newHistory = slice0 (pointsHistory s) (pointsHistoryIndex s + 1) @ [points]
      in s\<lparr>pointsHistory := newHistory,
           pointsHistoryIndex := int (length newHistory) - 1,
           canUndo := (length newHistory > 1),
           canRedo := False\<rparr>)"

definition setAdjustedPoints :: "Point2D list \<Rightarrow> store \<Rightarrow> store" where
  "setAdjustedPoints points s = addPointsToHistory points (s\<lparr>adjustedPoints := points\<rparr>)"

text \<open>
  \<^verbatim>\<open>[...pointsHistory[newIndex]]\<close> spreads \<^verbatim>\<open>undefined\<close> when the index is outside the
  array, which raises a TypeError.
\<close>

definition history_at :: "Point2D list list \<Rightarrow> int \<Rightarrow> js_error + Point2D list" where
  "history_at h i = (if 0 \<le> i \<and> i < int (length h) then Inr (h ! nat i) else Inl TypeError)"

definition undo :: "store \<Rightarrow> js_error + store" where
  "undo s =
     (if pointsHistoryIndex s > 0 then
        (let newIndex = pointsHistoryIndex s - 1 in
         case history_at (pointsHistory s) newIndex of
           Inl e \<Rightarrow> Inl e
         | Inr pts \<Rightarrow> Inr (s\<lparr>adjustedPoints := pts,
                            pointsHistoryIndex := newIndex,
                            canUndo := (newIndex > 0),
                            canRedo := True\<rparr>))
      else Inr s)"

definition redo :: "store \<Rightarrow> js_error + store" where
  "redo s =
     (if pointsHistoryIndex s < int (length (pointsHistory s)) - 1 then
        (let newIndex = pointsHistoryIndex s + 1 in
         case history_at (pointsHistory s) newIndex of
           Inl e \<Rightarrow> Inl e
         | Inr pts \<Rightarrow> Inr (s\<lparr>adjustedPoints := pts,
                            pointsHistoryIndex := newIndex,
                            canUndo := True,
                            canRedo := (newIndex < int (length (pointsHistory s)) - 1)\<rparr>))
      else Inr s)"

definition clearPointsHistory :: "store \<Rightarrow> store" where
  "clearPointsHistory s =
     s\<lparr>adjustedPoints := [], pointsHistory := [Nil], pointsHistoryIndex := 0,
       canUndo := False, canRedo := False\<rparr>"

section \<open>Feature detection on image data\<close>

text \<open>
  \<^verbatim>\<open>GeometricFeature\<close> of \<^verbatim>\<open>geometryDetection.ts\<close>. Coordinates are pixel positions
  here; \<^verbatim>\<open>detectGeometricFeatures\<close> divides them by the canvas size afterwards.
\<close>

datatype feature_type = Corner | Edge | Curve | Intersection

record GeometricFeature =
  f_type :: feature_type
  f_x :: real
  f_y :: real
  f_confidence :: real

text \<open>
  \<^verbatim>\<open>ImageData\<close>: four bytes (red, green, blue, alpha) per pixel, row by row.
\<close>

record ImageData =
  width :: nat
  height :: nat
  data :: "nat list"

text \<open>The loop \<^verbatim>\<open>for (v = start; v < stop; v += step)\<close>, as the list of values it visits.\<close>

definition range_step :: "nat \<Rightarrow> nat \<Rightarrow> nat \<Rightarrow> nat list" where
  "range_step start stop step = map (\<lambda>k. start + k * step) [0..<(stop - start + (step - 1)) div step]"

text \<open>
  A store into a \<^verbatim>\<open>Uint8Array\<close> truncates towards zero and wraps modulo 256. The weighted
  sum is taken over the reals; the rounding of the floating-point sum is not modelled.
\<close>

definition to_uint8 :: "real \<Rightarrow> nat" where
  "to_uint8 v = nat ((if v \<ge> 0 then \<lfloor>v\<rfloor> else \<lceil>v\<rceil>) mod 256)"

text \<open>
  The grayscale conversion, entry by entry: entry \<open>idx\<close> of the zero-filled array of
  \<open>width * height\<close> bytes is written from the bytes \<open>4 * idx\<close>, \<open>4 * idx + 1\<close> and
  \<open>4 * idx + 2\<close> of the data; a read past the end of the data makes the sum NaN, which is
  stored as 0, and writes past the end of the array are dropped.
\<close>

definition grayscale :: "nat \<Rightarrow> nat \<Rightarrow> nat list \<Rightarrow> nat list" where
  "grayscale w h dat =
     map (\<lambda>idx. if 4 * idx + 2 < length dat
                 then to_uint8 (299 / 1000 * real (dat ! (4 * idx))
                              + 587 / 1000 * real (dat ! (4 * idx + 1))
                              + 114 / 1000 * real (dat ! (4 * idx + 2)))
                 else 0)
       [0..<w * h]"

text \<open>
  The comparisons \<^verbatim>\<open>Math.sqrt(d) > t\<close> and \<^verbatim>\<open>Math.sqrt(d) < t\<close> for \<open>d \<ge> 0\<close>, decided
  on the squares so that they can be evaluated; \<open>sqrt_gt_iff\<close> and \<open>sqrt_lt_iff\<close> below
  show that they are these comparisons.
\<close>

definition sqrt_gt :: "real \<Rightarrow> real \<Rightarrow> bool" where
  "sqrt_gt d t = (t < 0 \<or> t * t < d)"

definition sqrt_lt :: "real \<Rightarrow> real \<Rightarrow> bool" where
  "sqrt_lt d t = (0 < t \<and> d < t * t)"

definition sobelX :: "int list" where
  "sobelX = [-1, 0, 1, -2, 0, 2, -1, 0, 1]"

definition sobelY :: "int list" where
  "sobelY = [-1, -2, -1, 0, 0, 0, 1, 2, 1]"

text \<open>
  The kernel offsets \<open>ky\<close>, \<open>kx\<close> of the source run from -1 to 1; here they run from 0
  to 2 and one is subtracted in the index (the pixel is an interior one, so nothing is cut
  off).
\<close>

definition sobel_sum :: "int list \<Rightarrow> nat list \<Rightarrow> nat \<Rightarrow> nat \<Rightarrow> nat \<Rightarrow> int" where
  "sobel_sum kern gray w x y =
     sum_list (map (\<lambda>ky. sum_list (map (\<lambda>kx.
        int (gray ! ((y + ky - 1) * w + (x + kx - 1))) * kern ! (ky * 3 + kx)) [0..<3])) [0..<3])"

definition applySobelFilter :: "nat list \<Rightarrow> nat \<Rightarrow> nat \<Rightarrow> real \<Rightarrow> nat list" where
  "applySobelFilter gray w h threshold =
     fold (\<lambda>(y, x) edges.
        let gx = sobel_sum sobelX gray w x y;
            gy = sobel_sum sobelY gray w x y
        in edges[y * w + x := (if sqrt_gt (real_of_int (gx * gx + gy * gy)) threshold then 255 else 0)])
       (concat (map (\<lambda>y. map (\<lambda>x. (y, x)) [1..<w - 1]) [1..<h - 1]))
       (replicate (w * h) 0)"

text \<open>
  Harris response on a 7 by 7 window (offsets 0 to 6 stand for the source's -3 to 3). A
  window position contributes only if both neighbour indices are inside the array.
\<close>

definition windowSize :: nat where
  "windowSize = 3"

definition window_sum :: "nat list \<Rightarrow> nat \<Rightarrow> nat \<Rightarrow> nat \<Rightarrow> (int \<Rightarrow> int \<Rightarrow> int) \<Rightarrow> int" where
  "window_sum gray w x y tm =
     sum_list (map (\<lambda>wy. sum_list (map (\<lambda>wx.
        let idx = (y + wy - windowSize) * w + (x + wx - windowSize);
            idxX = (y + wy - windowSize) * w + (x + wx - windowSize + 1);
            idxY = (y + wy - windowSize + 1) * w + (x + wx - windowSize)
        in if idxX < length gray \<and> idxY < length gray
           then tm (int (gray ! idxX) - int (gray ! idx)) (int (gray ! idxY) - int (gray ! idx))
           else 0) [0..<2 * windowSize + 1])) [0..<2 * windowSize + 1])"

definition detectCorners :: "nat list \<Rightarrow> nat \<Rightarrow> nat \<Rightarrow> real \<Rightarrow> (nat \<times> nat \<times> real) list" where
  "detectCorners gray w h threshold =
     concat (map (\<lambda>y. concat (map (\<lambda>x.
        let Ixx = window_sum gray w x y (\<lambda>Ix Iy. Ix * Ix);
            Iyy = window_sum gray w x y (\<lambda>Ix Iy. Iy * Iy);
            Ixy = window_sum gray w x y (\<lambda>Ix Iy. Ix * Iy);
            det = Ixx * Iyy - Ixy * Ixy;
            trace = Ixx + Iyy;
            response = real_of_int det - 4 / 100 * real_of_int trace * real_of_int trace
        in if response > threshold * 100 then [(x, y, response / 1000000)] else [])
       (range_step windowSize (w - windowSize) 2))) (range_step windowSize (h - windowSize) 2))"

definition calculateCurvature :: "nat list \<Rightarrow> nat \<Rightarrow> nat \<Rightarrow> nat \<Rightarrow> nat \<Rightarrow> real" where
  "calculateCurvature edges x y w h =
     (let radius = 5;
          edgeCount = sum_list (map (\<lambda>dy. sum_list (map (\<lambda>dx.
             let nx = int x + dx; ny = int y + dy
             in if nx \<ge> 0 \<and> nx < int w \<and> ny \<ge> 0 \<and> ny < int h
                then (if edges ! nat (ny * int w + nx) > 0 then 1 else 0)
                else (0::nat)) [- radius..radius])) [- radius..radius])
      in real edgeCount / real_of_int ((radius * 2 + 1) ^ 2))"

definition detectCurvePoints :: "nat list \<Rightarrow> nat \<Rightarrow> nat \<Rightarrow> (nat \<times> nat \<times> real) list" where
  "detectCurvePoints edges w h =
     concat (map (\<lambda>y. concat (map (\<lambda>x.
        if edges ! (y * w + x) > 0 then
          (let curvature = calculateCurvature edges x y w h
           in if curvature > 3 / 10 then [(x, y, curvature)] else [])
        else [])
       (range_step 0 w 5))) (range_step 0 h 5))"

definition feature :: "feature_type \<Rightarrow> nat \<times> nat \<times> real \<Rightarrow> GeometricFeature" where
  "feature t p = (case p of (x, y, c) \<Rightarrow> \<lparr>f_type = t, f_x = real x, f_y = real y, f_confidence = c\<rparr>)"

definition distSq :: "GeometricFeature \<Rightarrow> GeometricFeature \<Rightarrow> real" where
  "distSq a b = (let dx = f_x a - f_x b; dy = f_y a - f_y b in dx * dx + dy * dy)"

text \<open>
  The body of the loop of \<^verbatim>\<open>filterBySpacing\<close>: the feature is pushed unless an already
  kept one is closer than the minimum distance.
\<close>

definition keep :: "real \<Rightarrow> GeometricFeature \<Rightarrow> GeometricFeature list \<Rightarrow> GeometricFeature list" where
  "keep minDistSq ft filtered =
     (let tooClose = list_ex (\<lambda>existing. distSq ft existing < minDistSq) filtered
      in if \<not> tooClose then filtered @ [ft] else filtered)"

definition filterBySpacing :: "GeometricFeature list \<Rightarrow> real \<Rightarrow> GeometricFeature list" where
  "filterBySpacing features minSpacing =
     (let minDistSq = minSpacing * minSpacing
      in fold (keep minDistSq) features [])"

definition maxPoints :: "real \<Rightarrow> int" where
  "maxPoints density = \<lfloor>(density / 100) * 200 + 20\<rfloor>"

text \<open>
  \<^verbatim>\<open>sort((a, b) => b.confidence - a.confidence)\<close>: the sort of an array is stable, so
  features of equal confidence keep their order.
\<close>

definition sort_by_confidence :: "GeometricFeature list \<Rightarrow> GeometricFeature list" where
  "sort_by_confidence fs = sort_key (\<lambda>ft. - f_confidence ft) fs"

text \<open>The last three steps of \<^verbatim>\<open>detectFeaturesFromImageData\<close>, from the combined candidates on.\<close>

definition select_features :: "GeometricFeature list \<Rightarrow> real \<Rightarrow> real \<Rightarrow> GeometricFeature list" where
  "select_features allFeatures minSpacing density =
     (let filteredFeatures = filterBySpacing allFeatures minSpacing
      in slice0 (sort_by_confidence filteredFeatures) (maxPoints density))"

definition detectFeaturesFromImageData ::
  "ImageData \<Rightarrow> real \<Rightarrow> real \<Rightarrow> real \<Rightarrow> GeometricFeature list" where
  "detectFeaturesFromImageData imageData threshold minSpacing density =
     (let w = width imageData; h = height imageData;
          gray = grayscale w h (data imageData);
          edges = applySobelFilter gray w h threshold;
          corners = detectCorners gray w h threshold;
          curvePoints = detectCurvePoints edges w h;
          allFeatures = map (feature Corner) corners @ map (feature Curve) curvePoints
      in select_features allFeatures minSpacing density)"

text \<open>
  What loading the image and asking the canvas for a 2D context can give: the error
  handler fires, there is no context, or the pixels are read.
\<close>

datatype image_load = LoadError | NoContext | Loaded ImageData

definition detectGeometricFeatures :: "image_load \<Rightarrow> real \<Rightarrow> real \<Rightarrow> real \<Rightarrow> Point2D list" where
  "detectGeometricFeatures img threshold minSpacing density =
     (case img of
        LoadError \<Rightarrow> []
      | NoContext \<Rightarrow> []
      | Loaded imageData \<Rightarrow>
          map (\<lambda>f. \<lparr>pt_x = f_x f / real (width imageData),
                     pt_y = f_y f / real (height imageData),
                     pt_weight = f_confidence f,
                     pt_feature_type =
                       (if f_type f = Corner \<or> f_type f = Intersection then ''center'' else ''edge'')\<rparr>)
            (detectFeaturesFromImageData imageData threshold minSpacing density))"

section \<open>Mock point generation and the extraction query\<close>

text \<open>
  \<^verbatim>\<open>Math.random()\<close> is a stream of draws, read at a position that advances with every
  call. One placement attempt takes three draws.
\<close>

definition maxAttempts :: nat where
  "maxAttempts = 50"

definition candidate :: "(nat \<Rightarrow> real) \<Rightarrow> nat \<Rightarrow> real \<Rightarrow> real \<times> real" where
  "candidate rnd k edgeRatio =
     (if rnd k < edgeRatio then
        (let angle = rnd (k + 1) * pi * 2;
             radius = 3 / 10 + rnd (k + 2) * (2 / 10)
         in (1 / 2 + cos angle * radius, 1 / 2 + sin angle * radius))
      else (2 / 10 + rnd (k + 1) * (6 / 10), 2 / 10 + rnd (k + 2) * (6 / 10)))"

definition tooClose :: "Point2D list \<Rightarrow> real \<times> real \<Rightarrow> real \<Rightarrow> bool" where
  "tooClose points c minDist =
     list_ex (\<lambda>p. let dx = pt_x p - fst c; dy = pt_y p - snd c
                  in sqrt_lt (dx * dx + dy * dy) minDist) points"

text \<open>
  The \<^verbatim>\<open>do ... while (attempts < maxAttempts)\<close> loop: the candidate of the last attempt,
  the final value of \<open>attempts\<close> and the position in the stream of draws.
\<close>

function place ::
  "(nat \<Rightarrow> real) \<Rightarrow> Point2D list \<Rightarrow> real \<Rightarrow> real \<Rightarrow> nat \<Rightarrow> nat \<Rightarrow> (real \<times> real) \<times> nat \<times> nat" where
  "place rnd points edgeRatio minDist attempts k =
     (let c = candidate rnd k edgeRatio
      in if \<not> tooClose points c minDist then (c, attempts, k + 3)
         else if attempts + 1 < maxAttempts
              then place rnd points edgeRatio minDist (attempts + 1) (k + 3)
              else (c, attempts + 1, k + 3))"
  by pat_completeness auto
termination
  by (relation "measure (\<lambda>(rnd, points, edgeRatio, minDist, attempts, k). maxAttempts - attempts)") auto

declare place.simps [simp del]

definition mock_step ::
  "(nat \<Rightarrow> real) \<Rightarrow> real \<Rightarrow> real \<Rightarrow> real \<Rightarrow> Point2D list \<times> nat \<Rightarrow> Point2D list \<times> nat" where
  "mock_step rnd edgeRatio minDist weighting s =
     (case s of (points, k) \<Rightarrow>
        (case place rnd points edgeRatio minDist 0 k of ((x, y), attempts, k') \<Rightarrow>
           if attempts < maxAttempts then
             (points @ [\<lparr>pt_x = max 0 (min 1 x), pt_y = max 0 (min 1 y), pt_weight = weighting,
                          pt_feature_type = (if rnd k' < edgeRatio then ''edge'' else ''center'')\<rparr>],
              k' + 1)
           else (points, k')))"

definition generateMockPoints :: "real \<Rightarrow> real \<Rightarrow> real \<Rightarrow> real \<Rightarrow> (nat \<Rightarrow> real) \<Rightarrow> Point2D list" where
  "generateMockPoints density threshold minSpacing weighting rnd =
     (let totalPoints = \<lfloor>(density / 100) * 180 + 20\<rfloor>;
          edgeRatio = threshold / 255;
          minDist = minSpacing / 100
      in fst (fold (\<lambda>i s. mock_step rnd edgeRatio minDist weighting s) [0..<nat totalPoints] ([], 0)))"

text \<open>
  The query function of \<^verbatim>\<open>useAdjustPoints\<close>. The answer of the server to
  \<^verbatim>\<open>apiClient.extractPoints\<close> is an argument; when the call fails the \<^verbatim>\<open>catch\<close> block
  tries the local detection and falls back to the mock points.
\<close>

record extraction =
  ex_id :: resource_id
  ex_points :: "Point2D list"

definition queryFn ::
  "string option \<Rightarrow> string option \<Rightarrow> bool \<Rightarrow> extraction api_outcome \<Rightarrow> image_load
     \<Rightarrow> real \<Rightarrow> real \<Rightarrow> real \<Rightarrow> real \<Rightarrow> (nat \<Rightarrow> real) \<Rightarrow> nat \<Rightarrow> js_error + extraction" where
  "queryFn imageId imageUrl useGeometricDetection api img density threshold minSpacing weighting rnd now =
     (if imageId = None \<or> imageId = Some [] then Inl (Error ''No image ID provided'')
      else case api of
          ApiOk result \<Rightarrow> Inr \<lparr>ex_id = ex_id result, ex_points = ex_points result\<rparr>
        | ApiFailed \<Rightarrow>
            (let mock = \<lparr>ex_id = MockId now,
                         ex_points = generateMockPoints density threshold minSpacing weighting rnd\<rparr>
             in if useGeometricDetection \<and> imageUrl \<noteq> None \<and> imageUrl \<noteq> Some [] then
                  (let detectedPoints = detectGeometricFeatures img threshold minSpacing density
                   in if length detectedPoints > 0
                      then Inr \<lparr>ex_id = LocalId now, ex_points = detectedPoints\<rparr>
                      else Inr mock)
                else Inr mock))"

text \<open>Euclidean distance of two returned points, and of two features in pixel coordinates.\<close>

definition dist2d :: "Point2D \<Rightarrow> Point2D \<Rightarrow> real" where
  "dist2d p q = sqrt ((pt_x p - pt_x q) * (pt_x p - pt_x q) + (pt_y p - pt_y q) * (pt_y p - pt_y q))"

definition spaced :: "real \<Rightarrow> Point2D list \<Rightarrow> bool" where
  "spaced m ps = (\<forall>i j. i < length ps \<and> j < length ps \<and> i \<noteq> j \<longrightarrow> m \<le> dist2d (ps ! i) (ps ! j))"

definition position :: "GeometricFeature \<Rightarrow> Point2D" where
  "position f = \<lparr>pt_x = f_x f, pt_y = f_y f, pt_weight = f_confidence f, pt_feature_type = []\<rparr>"

definition pixel_position :: "ImageData \<Rightarrow> Point2D \<Rightarrow> Point2D" where
  "pixel_position imageData p =
     p\<lparr>pt_x := pt_x p * real (width imageData), pt_y := pt_y p * real (height imageData)\<rparr>"

text \<open>
  The suppression as the specification words it: sort by weight descending, visit in that
  order, accept a candidate whose distance to every accepted one is at least the minimum
  distance, stop at \<open>max_points\<close> accepted.
\<close>

fun spec_greedy_accept ::
  "real \<Rightarrow> nat \<Rightarrow> GeometricFeature list \<Rightarrow> GeometricFeature list \<Rightarrow> GeometricFeature list" where
  "spec_greedy_accept m n accepted [] = accepted"
| "spec_greedy_accept m n accepted (c # cs) =
     (if length accepted \<ge> n then accepted
      else if list_all (\<lambda>a. m * m \<le> distSq c a) accepted
           then spec_greedy_accept m n (accepted @ [c]) cs
           else spec_greedy_accept m n accepted cs)"

definition spec_greedy_nms :: "GeometricFeature list \<Rightarrow> real \<Rightarrow> nat \<Rightarrow> GeometricFeature list" where
  "spec_greedy_nms candidates m n = spec_greedy_accept m n [] (sort_by_confidence candidates)"

section \<open>Mock mesh generators\<close>

type_synonym vec3 = "real \<times> real \<times> real"
type_synonym face = "nat \<times> nat \<times> nat"

text \<open>
  What \<^verbatim>\<open>generateMockTorusFromPoints\<close> returns is the first three fields;
  \<^verbatim>\<open>MockModelData\<close> adds the counts and the bounding box, and the object built by
  \<^verbatim>\<open>generateMockModel\<close> adds \<^verbatim>\<open>id\<close> and \<^verbatim>\<open>shape\<close>. Vertex indices are array
  positions, hence natural numbers.
\<close>

record mesh =
  vertices :: "vec3 list"
  faces :: "face list"
  normals :: "vec3 list"

record MockModelData = mesh +
  vertex_count :: nat
  face_count :: nat
  bounding_box :: "real \<times> real \<times> real \<times> real \<times> real \<times> real"

record MockModel = MockModelData +
  resp_id :: resource_id
  shape :: string

text \<open>
  The face loop is the same in the three generators: for every ring (outer index) and
  every segment (inner index) the quad with corner \<open>v0\<close> is pushed as two triangles.
\<close>

definition quad_faces :: "nat \<Rightarrow> nat \<Rightarrow> nat \<Rightarrow> face list" where
  "quad_faces segments ring segment =
     (let v0 = ring * (segments + 1) + segment;
          v1 = v0 + segments + 1;
          v2 = v0 + 1;
          v3 = v1 + 1
      in [(v0, v1, v2), (v2, v1, v3)])"

definition grid_faces :: "nat \<Rightarrow> nat \<Rightarrow> face list" where
  "grid_faces rings segments =
     concat (map (\<lambda>ring. concat (map (\<lambda>segment. quad_faces segments ring segment) [0..<segments]))
       [0..<rings])"

definition generateSphereModel :: MockModelData where
  "generateSphereModel =
     (let radius = 1; segments = 16; rings = 16;
          vn = concat (map (\<lambda>ring.
                 let theta = (real ring / real rings) * pi;
                     sinTheta = sin theta;
                     cosTheta = cos theta
                 in map (\<lambda>segment.
                      let phi = (real segment / real segments) * pi * 2;
                          sinPhi = sin phi;
                          cosPhi = cos phi;
                          x = radius * sinTheta * cosPhi;
                          y = radius * cosTheta;
                          z = radius * sinTheta * sinPhi
                      in ((x, y, z), (x, y, z))) [0..<segments + 1]) [0..<rings + 1]);
          fs = grid_faces rings segments
      in \<lparr>vertices = map fst vn, faces = fs, normals = map snd vn,
          vertex_count = length vn, face_count = length fs,
          bounding_box = (- radius, - radius, - radius, radius, radius, radius)\<rparr>)"

definition generateTorusModel :: MockModelData where
  "generateTorusModel =
     (let majorRadius = 1; minorRadius = 3 / 10; majorSegments = 32; minorSegments = 16;
          vn = concat (map (\<lambda>i.
                 let theta = (real i / real majorSegments) * pi * 2;
                     cosTheta = cos theta;
                     sinTheta = sin theta
                 in map (\<lambda>j.
                      let phi = (real j / real minorSegments) * pi * 2;
                          cosPhi = cos phi;
                          sinPhi = sin phi;
                          x = (majorRadius + minorRadius * cosPhi) * cosTheta;
                          y = minorRadius * sinPhi;
                          z = (majorRadius + minorRadius * cosPhi) * sinTheta;
                          nx = cosPhi * cosTheta;
                          ny = sinPhi;
                          nz = cosPhi * sinTheta
                      in ((x, y, z), (nx, ny, nz))) [0..<minorSegments + 1]) [0..<majorSegments + 1]);
          fs = grid_faces majorSegments minorSegments
      in \<lparr>vertices = map fst vn, faces = fs, normals = map snd vn,
          vertex_count = length vn, face_count = length fs,
          bounding_box = (- majorRadius - minorRadius, - minorRadius, - majorRadius - minorRadius,
                          majorRadius + minorRadius, minorRadius, majorRadius + minorRadius)\<rparr>)"

definition generateMockModel :: "string \<Rightarrow> nat \<Rightarrow> MockModel" where
  "generateMockModel shp now =
     (let modelData = (if shp = ''torus'' then generateTorusModel else generateSphereModel)
      in \<lparr>vertices = vertices modelData, faces = faces modelData, normals = normals modelData,
          vertex_count = vertex_count modelData, face_count = face_count modelData,
          bounding_box = bounding_box modelData,
          resp_id = MockId now,
          shape = (if shp = ''torus'' then ''torus'' else ''sphere'')\<rparr>)"

text \<open>
  The mutation function of \<^verbatim>\<open>useGenerateModel\<close>. The test \<^verbatim>\<open>!pointsExtractionId\<close> holds of
  \<^verbatim>\<open>null\<close> and of the empty string. The server is outside this code: its
  answer to \<^verbatim>\<open>apiClient.generate3DModel\<close> is an argument, either a response or a failure
  of the call (which the \<^verbatim>\<open>catch\<close> block turns into the mock model).
\<close>

datatype 'r generated = Remote 'r | Mocked MockModel

definition useGenerateModel_mutationFn ::
  "string option \<Rightarrow> string \<Rightarrow> 'r api_outcome \<Rightarrow> nat \<Rightarrow> js_error + 'r generated" where
  "useGenerateModel_mutationFn pointsExtractionId targetShape api now =
     (if pointsExtractionId = None \<or> pointsExtractionId = Some []
      then Inl (Error ''No points extraction ID provided'')
      else case api of
          ApiOk result \<Rightarrow> Inr (Remote result)
        | ApiFailed \<Rightarrow> Inr (Mocked (generateMockModel targetShape now)))"

subsection \<open>The torus displaced by the adjusted points\<close>

text \<open>
  \<^verbatim>\<open>Math.atan2\<close> and the remainder operator \<^verbatim>\<open>%\<close> on real numbers (the sign of zero,
  NaN and the infinities of floating point are not modelled). \<^verbatim>\<open>a % b\<close> is
  \<open>a - b * trunc (a / b)\<close>, with the sign of the dividend.
\<close>

definition js_atan2 :: "real \<Rightarrow> real \<Rightarrow> real" where
  "js_atan2 y x =
     (if x > 0 then arctan (y / x)
      else if x < 0 then (if y \<ge> 0 then arctan (y / x) + pi else arctan (y / x) - pi)
      else if y > 0 then pi / 2
      else if y < 0 then - (pi / 2)
      else 0)"

definition js_rem :: "real \<Rightarrow> real \<Rightarrow> real" where
  "js_rem a b = a - b * of_int (if a / b \<ge> 0 then \<lfloor>a / b\<rfloor> else \<lceil>a / b\<rceil>)"

definition displacement :: "Point2D list \<Rightarrow> real \<Rightarrow> real" where
  "displacement points theta =
     fold (\<lambda>p d.
        let px = (pt_x p - 1 / 2) * 2;
            py = (pt_y p - 1 / 2) * 2;
            angle = js_atan2 py px;
            angleDiff = \<bar>js_rem (angle - theta + pi) (pi * 2) - pi\<bar>
        in if angleDiff < 1 / 2 then d + (1 / 10) * (1 - angleDiff / (1 / 2)) else d) points 0"

definition generateMockTorusFromPoints :: "Point2D list \<Rightarrow> mesh" where
  "generateMockTorusFromPoints points =
     (let majorRadius = 12 / 10; minorRadius = 4 / 10; majorSegments = 48; minorSegments = 24;
          vn = concat (map (\<lambda>i.
                 let theta = (real i / real majorSegments) * pi * 2;
                     cosTheta = cos theta;
                     sinTheta = sin theta
                 in map (\<lambda>j.
                      let phi = (real j / real minorSegments) * pi * 2;
                          cosPhi = cos phi;
                          sinPhi = sin phi;
                          r = minorRadius + displacement points theta;
                          x = (majorRadius + r * cosPhi) * cosTheta;
                          y = r * sinPhi;
                          z = (majorRadius + r * cosPhi) * sinTheta;
                          nx = cosPhi * cosTheta;
                          ny = sinPhi;
                          nz = cosPhi * sinTheta
                      in ((x, y, z), (nx, ny, nz))) [0..<minorSegments + 1]) [0..<majorSegments + 1]);
          fs = grid_faces majorSegments minorSegments
      in \<lparr>vertices = map fst vn, faces = fs, normals = map snd vn\<rparr>)"

subsection \<open>Properties of a mesh\<close>

text \<open>
  The undirected edges of a face list are the unordered index pairs of each triangle; an
  unordered pair is kept as (smaller, larger). The Euler characteristic is
  \<open>V - E + F\<close> with \<open>E\<close> the number of distinct such pairs.
\<close>

definition undirected :: "nat \<Rightarrow> nat \<Rightarrow> nat \<times> nat" where
  "undirected a b = (min a b, max a b)"

fun face_edges :: "face \<Rightarrow> (nat \<times> nat) list" where
  "face_edges (a, b, c) = [undirected a b, undirected b c, undirected c a]"

definition edge_count :: "face list \<Rightarrow> nat" where
  "edge_count fs = length (remdups (concat (map face_edges fs)))"

definition euler_characteristic :: "vec3 list \<Rightarrow> face list \<Rightarrow> int" where
  "euler_characteristic vs fs = int (length vs) - int (edge_count fs) + int (length fs)"

fun face_in_range :: "nat \<Rightarrow> face \<Rightarrow> bool" where
  "face_in_range n (a, b, c) = (a < n \<and> b < n \<and> c < n)"

fun unit_bounded :: "vec3 \<Rightarrow> bool" where
  "unit_bounded (nx, ny, nz) = (\<bar>nx\<bar> \<le> 1 \<and> \<bar>ny\<bar> \<le> 1 \<and> \<bar>nz\<bar> \<le> 1)"

text \<open>
  Index validity, alignment of the normals with the vertices, and normals whose components
  are real numbers of absolute value at most one (so finite).
\<close>

definition mesh_ok :: "vec3 list \<Rightarrow> face list \<Rightarrow> vec3 list \<Rightarrow> bool" where
  "mesh_ok vs fs ns =
     (list_all (face_in_range (length vs)) fs \<and> length ns = length vs \<and> list_all unit_bounded ns)"

text \<open>The standard parametrisation of a torus with major radius \<open>R\<close> and minor radius \<open>r\<close>.\<close>

definition torus_point :: "real \<Rightarrow> real \<Rightarrow> real \<Rightarrow> real \<Rightarrow> vec3" where
  "torus_point R r theta phi =
     ((R + r * cos phi) * cos theta, r * sin phi, (R + r * cos phi) * sin theta)"

subsection \<open>Edges of the index grid\<close>

text \<open>
  The three families of undirected edges of the grid of quads, each given by the cell
  (row, column) it starts from and the row length \<open>s\<close>: to the next row, to the next
  column, and the diagonal of the quad.
\<close>

definition ev :: "nat \<Rightarrow> nat \<times> nat \<Rightarrow> nat \<times> nat" where
  "ev s c = (fst c * s + snd c, fst c * s + snd c + s)"
definition eh :: "nat \<Rightarrow> nat \<times> nat \<Rightarrow> nat \<times> nat" where
  "eh s c = (fst c * s + snd c, fst c * s + snd c + 1)"
definition ed :: "nat \<Rightarrow> nat \<times> nat \<Rightarrow> nat \<times> nat" where
  "ed s c = (fst c * s + snd c + 1, fst c * s + snd c + s)"

section \<open>Test images and draws\<close>

text \<open>
  An image of constant intensity is one whose grayscale array holds one value throughout.
\<close>

definition constant_intensity :: "ImageData \<Rightarrow> nat \<Rightarrow> bool" where
  "constant_intensity imageData c \<longleftrightarrow>
     grayscale (width imageData) (height imageData) (data imageData)
       = replicate (width imageData * height imageData) c"

text \<open>The image whose pixel \<open>i\<close> (in row order) has the colour \<open>px i\<close>.\<close>

definition image_of_pixels :: "nat \<Rightarrow> nat \<Rightarrow> (nat \<Rightarrow> nat \<times> nat \<times> nat \<times> nat) \<Rightarrow> ImageData" where
  "image_of_pixels w h px =
     \<lparr>width = w, height = h,
      data = concat (map (\<lambda>i. case px i of (r, g, b, a) \<Rightarrow> [r, g, b, a]) [0..<w * h])\<rparr>"

definition luminance :: "nat \<times> nat \<times> nat \<times> nat \<Rightarrow> nat" where
  "luminance p = (case p of (r, g, b, a) \<Rightarrow>
     to_uint8 (299 / 1000 * real r + 587 / 1000 * real g + 114 / 1000 * real b))"

definition uniform_image :: "nat \<Rightarrow> nat \<Rightarrow> nat \<times> nat \<times> nat \<times> nat \<Rightarrow> ImageData" where
  "uniform_image w h colour = image_of_pixels w h (\<lambda>i. colour)"

text \<open>A black 7 by 7 image with one yellow pixel in the middle.\<close>

definition spot_image :: ImageData where
  "spot_image = image_of_pixels 7 7 (\<lambda>i. if i = 24 then (255, 255, 0, 255) else (0, 0, 0, 255))"

text \<open>
  Sequences of draws: the same value at every draw; and 1/2 at every draw except the
  sixth, which is 3/4.
\<close>

definition steady :: "real \<Rightarrow> nat \<Rightarrow> real" where
  "steady c n = c"

definition draws :: "nat \<Rightarrow> real" where
  "draws n = (if n = 5 then 3 / 4 else 1 / 2)"

section \<open>Undo and redo\<close>

lemma setAdjustedPoints_fields:
  "adjustedPoints (setAdjustedPoints p s) = p"
  "pointsHistory (setAdjustedPoints p s) = slice0 (pointsHistory s) (pointsHistoryIndex s + 1) @ [p]"
  "pointsHistoryIndex (setAdjustedPoints p s) =
     int (length (slice0 (pointsHistory s) (pointsHistoryIndex s + 1)))"
  by (simp_all add: setAdjustedPoints_def addPointsToHistory_def Let_def)

lemma undo_redo_after_set:
  "\<exists>s'. and_then (undo (setAdjustedPoints p s)) redo = Inr s' \<and> adjustedPoints s' = p"
proof (cases "slice0 (pointsHistory s) (pointsHistoryIndex s + 1) = []")
  case True
  then show ?thesis
    by (simp add: undo_def redo_def and_then_def setAdjustedPoints_fields)
next
  case False
  then have pos: "0 < length (slice0 (pointsHistory s) (pointsHistoryIndex s + 1))"
    by simp
  then show ?thesis
    by (simp add: undo_def redo_def and_then_def setAdjustedPoints_fields history_at_def
        Let_def nth_append)
qed

text \<open>
  C10. For every store state and every points list \<open>p\<close>: \<^verbatim>\<open>setAdjustedPoints(p)\<close>, then
  \<^verbatim>\<open>undo()\<close>, then \<^verbatim>\<open>redo()\<close> runs without an error and leaves \<open>adjustedPoints\<close> equal to
  \<open>p\<close>; and \<^verbatim>\<open>undo()\<close> at history index 0 returns the state unchanged.
\<close>

theorem undo_redo_roundtrip:
  "(\<exists>s'. and_then (undo (setAdjustedPoints p s)) redo = Inr s' \<and> adjustedPoints s' = p)
   \<and> (pointsHistoryIndex s = 0 \<longrightarrow> undo s = Inr s)"
  using undo_redo_after_set [of p s] by (simp add: undo_def)

theorem undo_redo_roundtrip_witness:
  "(\<exists>s'. and_then (undo (setAdjustedPoints
        [\<lparr>pt_x = 1/2, pt_y = 1/4, pt_weight = 1, pt_feature_type = ''edge''\<rparr>]
        (clearPointsHistory \<lparr>adjustedPoints = [], pointsHistory = [], pointsHistoryIndex = -1,
           canUndo = False, canRedo = False\<rparr>))) redo = Inr s'
      \<and> adjustedPoints s' = [\<lparr>pt_x = 1/2, pt_y = 1/4, pt_weight = 1, pt_feature_type = ''edge''\<rparr>])
   \<and> pointsHistoryIndex (clearPointsHistory \<lparr>adjustedPoints = [], pointsHistory = [],
        pointsHistoryIndex = -1, canUndo = False, canRedo = False\<rparr>) = 0
   \<and> undo (clearPointsHistory \<lparr>adjustedPoints = [], pointsHistory = [],
        pointsHistoryIndex = -1, canUndo = False, canRedo = False\<rparr>)
      = Inr (clearPointsHistory \<lparr>adjustedPoints = [], pointsHistory = [],
        pointsHistoryIndex = -1, canUndo = False, canRedo = False\<rparr>)"
  using undo_redo_roundtrip
    [of "[\<lparr>pt_x = 1/2, pt_y = 1/4, pt_weight = 1, pt_feature_type = ''edge''\<rparr>]"
        "clearPointsHistory \<lparr>adjustedPoints = [], pointsHistory = [], pointsHistoryIndex = -1,
           canUndo = False, canRedo = False\<rparr>"]
  by (simp add: clearPointsHistory_def)

section \<open>The mock meshes\<close>

lemma length_grid_faces: "length (grid_faces a b) = 2 * a * b"
  by (simp add: grid_faces_def quad_faces_def length_concat comp_def Let_def sum_list_triv)

lemma sphere_vertices_length: "length (vertices generateSphereModel) = 17 * 17"
  by (simp add: generateSphereModel_def Let_def length_concat comp_def sum_list_triv)

lemma sphere_normals_length: "length (normals generateSphereModel) = 17 * 17"
  by (simp add: generateSphereModel_def Let_def length_concat comp_def sum_list_triv)

lemma sphere_faces: "faces generateSphereModel = grid_faces 16 16"
  by (simp add: generateSphereModel_def Let_def)

lemma torus_vertices_length: "length (vertices generateTorusModel) = 33 * 17"
  by (simp add: generateTorusModel_def Let_def length_concat comp_def sum_list_triv)

lemma torus_normals_length: "length (normals generateTorusModel) = 33 * 17"
  by (simp add: generateTorusModel_def Let_def length_concat comp_def sum_list_triv)

lemma torus_faces: "faces generateTorusModel = grid_faces 32 16"
  by (simp add: generateTorusModel_def Let_def)

lemma ptorus_vertices_length: "length (vertices (generateMockTorusFromPoints ps)) = 49 * 25"
  by (simp add: generateMockTorusFromPoints_def Let_def length_concat comp_def sum_list_triv)

lemma ptorus_normals_length: "length (normals (generateMockTorusFromPoints ps)) = 49 * 25"
  by (simp add: generateMockTorusFromPoints_def Let_def length_concat comp_def sum_list_triv)

lemma ptorus_faces: "faces (generateMockTorusFromPoints ps) = grid_faces 48 24"
  by (simp add: generateMockTorusFromPoints_def Let_def)

lemma grid_faces_mem:
  "f \<in> set (grid_faces a b) \<longleftrightarrow> (\<exists>i<a. \<exists>j<b. f \<in> set (quad_faces b i j))"
  by (fastforce simp: grid_faces_def)

lemma quad_bound:
  assumes "i < a" "j < b"
  shows "i * (b + 1) + j + b + 1 + 1 < (a + 1) * (b + (1::nat))"
proof -
  have "Suc i \<le> a" using assms by simp
  then have "Suc i * (b + 1) \<le> a * (b + 1)" by (rule mult_le_mono1)
  then show ?thesis using assms by simp
qed

lemma grid_faces_in_range:
  "list_all (face_in_range ((a + 1) * (b + 1))) (grid_faces a b)"
  unfolding list_all_iff
proof
  fix f assume "f \<in> set (grid_faces a b)"
  then obtain i j where ij: "i < a" "j < b" and f: "f \<in> set (quad_faces b i j)"
    by (auto simp: grid_faces_mem)
  from quad_bound [OF ij] f show "face_in_range ((a + 1) * (b + 1)) f"
    by (auto simp: quad_faces_def Let_def)
qed

lemma abs_prod_le_one: "\<bar>a\<bar> \<le> 1 \<Longrightarrow> \<bar>b\<bar> \<le> 1 \<Longrightarrow> \<bar>a * b\<bar> \<le> (1::real)"
  by (simp add: abs_mult mult_le_one)

lemma sphere_normals_bounded: "list_all unit_bounded (normals generateSphereModel)"
  by (auto simp: generateSphereModel_def Let_def list_all_iff intro!: abs_prod_le_one)

lemma torus_normals_bounded: "list_all unit_bounded (normals generateTorusModel)"
  by (auto simp: generateTorusModel_def Let_def list_all_iff intro!: abs_prod_le_one)

lemma ptorus_normals_bounded: "list_all unit_bounded (normals (generateMockTorusFromPoints ps))"
  by (auto simp: generateMockTorusFromPoints_def Let_def list_all_iff intro!: abs_prod_le_one)


lemma cell_edges:
  "set (concat (map face_edges (quad_faces b i j))) =
     {ev (Suc b) (i, j), ed (Suc b) (i, j), eh (Suc b) (i, j), eh (Suc b) (Suc i, j), ev (Suc b) (i, Suc j)}"
  by (auto simp: quad_faces_def Let_def undirected_def ev_def eh_def ed_def min_def max_def)

lemma grid_edges_cells:
  "set (concat (map face_edges (grid_faces a b))) =
     (\<Union>i\<in>{..<a}. \<Union>j\<in>{..<b}. set (concat (map face_edges (quad_faces b i j))))"
  by (simp add: grid_faces_def map_concat comp_def atLeast0LessThan)

lemma grid_edges:
  assumes "1 \<le> a" "1 \<le> b"
  shows "set (concat (map face_edges (grid_faces a b))) =
     ev (Suc b) ` ({..<a} \<times> {..b}) \<union> eh (Suc b) ` ({..a} \<times> {..<b}) \<union> ed (Suc b) ` ({..<a} \<times> {..<b})"
    (is "?L = ?V \<union> ?H \<union> ?D")
proof (rule set_eqI, rule iffI)
  fix e assume "e \<in> ?L"
  then obtain i j where ij: "i < a" "j < b"
    and e: "e \<in> {ev (Suc b) (i, j), ed (Suc b) (i, j), eh (Suc b) (i, j), eh (Suc b) (Suc i, j), ev (Suc b) (i, Suc j)}"
    unfolding grid_edges_cells cell_edges by blast
  have "(i, j) \<in> {..<a} \<times> {..b}" "(i, Suc j) \<in> {..<a} \<times> {..b}"
    "(i, j) \<in> {..a} \<times> {..<b}" "(Suc i, j) \<in> {..a} \<times> {..<b}" "(i, j) \<in> {..<a} \<times> {..<b}"
    using ij by auto
  with e show "e \<in> ?V \<union> ?H \<union> ?D" by blast
next
  fix e assume "e \<in> ?V \<union> ?H \<union> ?D"
  then consider (V) i j where "i < a" "j \<le> b" "e = ev (Suc b) (i, j)"
    | (H) i j where "i \<le> a" "j < b" "e = eh (Suc b) (i, j)"
    | (D) i j where "i < a" "j < b" "e = ed (Suc b) (i, j)"
    by auto
  then show "e \<in> ?L"
  proof cases
    case V
    show ?thesis
    proof (cases "j < b")
      case True
      with V show ?thesis unfolding grid_edges_cells cell_edges by blast
    next
      case False
      with V assms obtain j' where "j = Suc j'" "j' < b" by (cases j) auto
      with V show ?thesis unfolding grid_edges_cells cell_edges by blast
    qed
  next
    case H
    show ?thesis
    proof (cases "i < a")
      case True
      with H show ?thesis unfolding grid_edges_cells cell_edges by blast
    next
      case False
      with H assms obtain i' where "i = Suc i'" "i' < a" by (cases i) auto
      with H show ?thesis unfolding grid_edges_cells cell_edges by blast
    qed
  next
    case D
    then show ?thesis unfolding grid_edges_cells cell_edges by blast
  qed
qed

lemma index_unique:
  assumes "j < s" "j' < s" "i * s + j = i' * s + j'"
  shows "i = i' \<and> j = (j'::nat)"
proof -
  have "i = (i * s + j) div s" using assms(1) by simp
  also have "\<dots> = (i' * s + j') div s" by (simp only: assms(3))
  also have "\<dots> = i'" using assms(2) by simp
  finally have "i = i'" .
  then show ?thesis using assms(3) by simp
qed

lemma inj_ev: "inj_on (ev (Suc b)) ({..<a} \<times> {..b})"
proof (rule inj_onI)
  fix c d assume "c \<in> {..<a} \<times> {..b}" "d \<in> {..<a} \<times> {..b}" "ev (Suc b) c = ev (Suc b) d"
  then have "snd c < Suc b" "snd d < Suc b" "fst c * Suc b + snd c = fst d * Suc b + snd d"
    by (auto simp: ev_def)
  from index_unique [OF this] show "c = d" by (simp add: prod_eq_iff)
qed

lemma inj_eh: "inj_on (eh (Suc b)) ({..a} \<times> {..<b})"
proof (rule inj_onI)
  fix c d assume "c \<in> {..a} \<times> {..<b}" "d \<in> {..a} \<times> {..<b}" "eh (Suc b) c = eh (Suc b) d"
  then have "snd c < Suc b" "snd d < Suc b" "fst c * Suc b + snd c = fst d * Suc b + snd d"
    by (auto simp: eh_def)
  from index_unique [OF this] show "c = d" by (simp add: prod_eq_iff)
qed

lemma inj_ed: "inj_on (ed (Suc b)) ({..<a} \<times> {..<b})"
proof (rule inj_onI)
  fix c d assume "c \<in> {..<a} \<times> {..<b}" "d \<in> {..<a} \<times> {..<b}" "ed (Suc b) c = ed (Suc b) d"
  then have "snd c < Suc b" "snd d < Suc b" "fst c * Suc b + snd c = fst d * Suc b + snd d"
    by (auto simp: ed_def)
  from index_unique [OF this] show "c = d" by (simp add: prod_eq_iff)
qed

lemma disj_edges:
  assumes "2 \<le> b"
  shows "ev (Suc b) ` A \<inter> eh (Suc b) ` B = {}"
    "(ev (Suc b) ` A \<union> eh (Suc b) ` B) \<inter> ed (Suc b) ` C = {}"
  using assms by (auto simp: ev_def eh_def ed_def)

lemma edge_count_grid:
  assumes "1 \<le> a" "2 \<le> b"
  shows "edge_count (grid_faces a b) = a * (b + 1) + (a + 1) * b + a * b"
proof -
  have b1: "1 \<le> b" using assms by simp
  have "edge_count (grid_faces a b) = card (set (concat (map face_edges (grid_faces a b))))"
    by (simp add: edge_count_def length_remdups_card_conv)
  also have "\<dots> = card (ev (Suc b) ` ({..<a} \<times> {..b}) \<union> eh (Suc b) ` ({..a} \<times> {..<b})) +
      card (ed (Suc b) ` ({..<a} \<times> {..<b}))"
    unfolding grid_edges [OF assms(1) b1]
    by (rule card_Un_disjoint) (simp_all add: disj_edges [OF assms(2)])
  also have "card (ev (Suc b) ` ({..<a} \<times> {..b}) \<union> eh (Suc b) ` ({..a} \<times> {..<b})) =
      card (ev (Suc b) ` ({..<a} \<times> {..b})) + card (eh (Suc b) ` ({..a} \<times> {..<b}))"
    by (rule card_Un_disjoint) (simp_all add: disj_edges [OF assms(2)])
  finally show ?thesis
    by (simp add: card_image inj_ev inj_eh inj_ed card_cartesian_product)
qed

lemma euler_grid:
  assumes "1 \<le> a" "2 \<le> b" "length vs = (a + 1) * (b + 1)"
  shows "euler_characteristic vs (grid_faces a b) = 1"
  by (simp add: euler_characteristic_def edge_count_grid [OF assms(1,2)] assms(3)
      length_grid_faces algebra_simps)

lemma euler_sphere:
  "euler_characteristic (vertices generateSphereModel) (faces generateSphereModel) = 1"
  unfolding sphere_faces by (rule euler_grid) (simp_all add: sphere_vertices_length)

lemma euler_torus:
  "euler_characteristic (vertices generateTorusModel) (faces generateTorusModel) = 1"
  unfolding torus_faces by (rule euler_grid) (simp_all add: torus_vertices_length)

lemma euler_ptorus:
  "euler_characteristic (vertices (generateMockTorusFromPoints ps))
     (faces (generateMockTorusFromPoints ps)) = 1"
  unfolding ptorus_faces by (rule euler_grid) (simp_all add: ptorus_vertices_length)

text \<open>
  C5 (as amended). The mock sphere, the mock torus and the torus displaced by any list of
  points each have \<open>V - E + F = 1\<close>, with \<open>E\<close> the number of distinct undirected index
  edges of the face list: the generators emit an open grid whose seam (and pole) vertices
  are duplicated, not shared. They take no subdivision level.
\<close>

theorem mock_meshes_euler_one:
  "euler_characteristic (vertices generateSphereModel) (faces generateSphereModel) = 1
   \<and> euler_characteristic (vertices generateTorusModel) (faces generateTorusModel) = 1
   \<and> euler_characteristic (vertices (generateMockTorusFromPoints ps))
        (faces (generateMockTorusFromPoints ps)) = 1"
  by (simp add: euler_sphere euler_torus euler_ptorus)

text \<open>
  The mock sphere does not have Euler characteristic 2 and the mock torus does not have
  Euler characteristic 0.
\<close>

theorem euler_sphere_torus_counterexample:
  "euler_characteristic (vertices generateSphereModel) (faces generateSphereModel) \<noteq> 2
   \<and> euler_characteristic (vertices generateTorusModel) (faces generateTorusModel) \<noteq> 0"
  by (simp add: euler_sphere euler_torus)

lemma mesh_ok_sphere:
  "mesh_ok (vertices generateSphereModel) (faces generateSphereModel) (normals generateSphereModel)"
  using grid_faces_in_range [of 16 16]
  by (simp add: mesh_ok_def sphere_faces sphere_vertices_length sphere_normals_length
      sphere_normals_bounded)

lemma mesh_ok_torus:
  "mesh_ok (vertices generateTorusModel) (faces generateTorusModel) (normals generateTorusModel)"
  using grid_faces_in_range [of 32 16]
  by (simp add: mesh_ok_def torus_faces torus_vertices_length torus_normals_length
      torus_normals_bounded)

lemma mesh_ok_ptorus:
  "mesh_ok (vertices (generateMockTorusFromPoints ps)) (faces (generateMockTorusFromPoints ps))
     (normals (generateMockTorusFromPoints ps))"
  using grid_faces_in_range [of 48 24]
  by (simp add: mesh_ok_def ptorus_faces ptorus_vertices_length ptorus_normals_length
      ptorus_normals_bounded)

text \<open>
  C6. In the mesh of each generator (sphere, torus, torus displaced by any points) every
  index of every face is below the number of vertices, there are as many normals as
  vertices, and every component of every normal lies between -1 and 1.
\<close>

theorem mock_meshes_well_formed:
  "mesh_ok (vertices generateSphereModel) (faces generateSphereModel) (normals generateSphereModel)
   \<and> mesh_ok (vertices generateTorusModel) (faces generateTorusModel) (normals generateTorusModel)
   \<and> mesh_ok (vertices (generateMockTorusFromPoints ps)) (faces (generateMockTorusFromPoints ps))
        (normals (generateMockTorusFromPoints ps))"
  by (simp add: mesh_ok_sphere mesh_ok_torus mesh_ok_ptorus)

lemma first_face_sphere: "(0, 17, 1) \<in> set (faces generateSphereModel)"
  unfolding sphere_faces grid_faces_mem
  by (rule exI [of _ 0], simp, rule exI [of _ 0], simp add: quad_faces_def)

theorem mock_meshes_well_formed_witness:
  "(0, 17, 1) \<in> set (faces generateSphereModel)
   \<and> face_in_range (length (vertices generateSphereModel)) (0, 17, 1)
   \<and> length (normals generateSphereModel) = length (vertices generateSphereModel)"
  using mock_meshes_well_formed [of "[]"] first_face_sphere
  by (simp add: mesh_ok_def list_all_iff sphere_vertices_length)

text \<open>
  With the server call failing, the unknown tag \<^verbatim>\<open>dodecahedron\<close> gives no error but the
  mock sphere, labelled \<^verbatim>\<open>sphere\<close>.
\<close>

theorem unknown_shape_counterexample:
  "useGenerateModel_mutationFn (Some ''extraction-1'') ''dodecahedron'' (ApiFailed :: unit api_outcome) 0
     = Inr (Mocked (generateMockModel ''sphere'' 0))
   \<and> shape (generateMockModel ''dodecahedron'' 0) = ''sphere''"
  by (simp add: useGenerateModel_mutationFn_def generateMockModel_def)

text \<open>
  C8 (as amended). \<^verbatim>\<open>generateMockModel\<close> reports no error for any tag: \<^verbatim>\<open>torus\<close> gives
  the mock torus and every other tag, known or not, the mock sphere labelled \<^verbatim>\<open>sphere\<close>.
  The mutation of \<^verbatim>\<open>useGenerateModel\<close> fails exactly when the extraction id is missing
  (\<^verbatim>\<open>null\<close> or the empty string), whatever the tag; otherwise it passes a server response
  on and answers a failed server call with the mock model.
\<close>

theorem mock_model_never_fails:
  "shape (generateMockModel tag now) = (if tag = ''torus'' then ''torus'' else ''sphere'')
   \<and> MockModelData.truncate (generateMockModel tag now)
       = (if tag = ''torus'' then generateTorusModel else generateSphereModel)
   \<and> (pid \<noteq> None \<and> pid \<noteq> Some [] \<longrightarrow>
        useGenerateModel_mutationFn pid tag ApiFailed now = Inr (Mocked (generateMockModel tag now))
        \<and> useGenerateModel_mutationFn pid tag (ApiOk r) now = Inr (Remote r))
   \<and> (pid = None \<or> pid = Some [] \<longrightarrow>
        useGenerateModel_mutationFn pid tag api now
          = Inl (Error ''No points extraction ID provided''))"
  by (simp add: useGenerateModel_mutationFn_def generateMockModel_def MockModelData.truncate_def)

theorem mock_model_never_fails_witness:
  "Some ''extraction-1'' \<noteq> None \<and> Some ''extraction-1'' \<noteq> Some []
   \<and> useGenerateModel_mutationFn (Some ''extraction-1'') ''cube'' (ApiFailed :: unit api_outcome) 3
        = Inr (Mocked (generateMockModel ''cube'' 3))
   \<and> useGenerateModel_mutationFn (Some ''extraction-1'') ''cube'' (ApiOk ()) 3 = Inr (Remote ())
   \<and> shape (generateMockModel ''cube'' 3) = ''sphere''
   \<and> useGenerateModel_mutationFn (Some []) ''cube'' (ApiOk ()) 3
        = Inl (Error ''No points extraction ID provided'')"
proof -
  have h: "Some ''extraction-1'' \<noteq> None \<and> Some ''extraction-1'' \<noteq> (Some [] :: string option)"
    by simp
  have e: "(Some [] :: string option) = None \<or> (Some [] :: string option) = Some []" by simp
  from mock_model_never_fails [of "''cube''" 3 "Some ''extraction-1''" "()" "ApiOk ()"] h
    mock_model_never_fails [of "''cube''" 3 "Some []" "()" "ApiOk ()"] e
  show ?thesis by simp
qed

lemma displacement_empty: "displacement [] theta = 0"
  by (simp add: displacement_def)

text \<open>
  C9. \<^verbatim>\<open>generateMockTorusFromPoints\<close> on the empty list returns the parametric torus of
  major radius 1.2 and minor radius 0.4 sampled at 49 by 25 angles, with its faces and
  normals: the displacement is zero at every angle.
\<close>

theorem torus_from_no_points_is_base_torus:
  "generateMockTorusFromPoints [] =
     \<lparr>vertices = concat (map (\<lambda>i. map (\<lambda>j.
          torus_point (12 / 10) (4 / 10) ((real i / 48) * pi * 2) ((real j / 24) * pi * 2))
          [0..<24 + 1]) [0..<48 + 1]),
      faces = grid_faces 48 24,
      normals = concat (map (\<lambda>i. map (\<lambda>j.
          (cos ((real j / 24) * pi * 2) * cos ((real i / 48) * pi * 2),
           sin ((real j / 24) * pi * 2),
           cos ((real j / 24) * pi * 2) * sin ((real i / 48) * pi * 2)))
          [0..<24 + 1]) [0..<48 + 1])\<rparr>
   \<and> (\<forall>theta. displacement [] theta = 0)"
  unfolding generateMockTorusFromPoints_def Let_def
  by (simp add: displacement_empty torus_point_def map_concat comp_def)


section \<open>The spacing filter and the selection of features\<close>

lemma sqrt_gt_iff: "0 \<le> d \<Longrightarrow> sqrt_gt d t \<longleftrightarrow> sqrt d > t"
proof -
  assume d: "0 \<le> d"
  show ?thesis
  proof (cases "t < 0")
    case True
    have "0 \<le> sqrt d" using d by simp
    with True show ?thesis unfolding sqrt_gt_def by argo
  next
    case False
    then have "t < sqrt d \<longleftrightarrow> t\<^sup>2 < d"
      using d by (metis not_less real_less_rsqrt real_sqrt_less_iff real_sqrt_abs abs_of_nonneg)
    with False show ?thesis by (simp add: sqrt_gt_def power2_eq_square)
  qed
qed

lemma sqrt_lt_iff: "0 \<le> d \<Longrightarrow> sqrt_lt d t \<longleftrightarrow> sqrt d < t"
proof -
  assume d: "0 \<le> d"
  show ?thesis
  proof (cases "0 < t")
    case True
    then have "sqrt d < t \<longleftrightarrow> d < t\<^sup>2"
      using d by (metis less_eq_real_def real_less_lsqrt real_sqrt_less_iff real_sqrt_abs abs_of_nonneg)
    with True show ?thesis by (simp add: sqrt_lt_def power2_eq_square)
  next
    case False
    have "0 \<le> sqrt d" using d by simp
    with False show ?thesis unfolding sqrt_lt_def by argo
  qed
qed

lemma distSq_commute: "distSq a b = distSq b a"
  by (simp add: distSq_def Let_def algebra_simps)

lemma distSq_nonneg: "0 \<le> distSq a b"
  by (simp add: distSq_def Let_def)

lemma keep_cases:
  "(list_ex (\<lambda>existing. distSq ft existing < m2) filtered \<and> keep m2 ft filtered = filtered)
   \<or> (\<not> list_ex (\<lambda>existing. distSq ft existing < m2) filtered \<and> keep m2 ft filtered = filtered @ [ft])"
  by (simp add: keep_def Let_def)

lemma filterBySpacing_fold: "filterBySpacing fs m = fold (keep (m * m)) fs []"
  by (simp add: filterBySpacing_def)

lemma keep_apart:
  assumes "sorted_wrt (\<lambda>a b. m2 \<le> distSq a b) acc"
  shows "sorted_wrt (\<lambda>a b. m2 \<le> distSq a b) (keep m2 f acc)"
  using keep_cases [of f m2 acc] assms
  by (auto simp: sorted_wrt_append list_ex_iff not_less distSq_commute [of f])

lemma fold_keep_apart:
  "sorted_wrt (\<lambda>a b. m2 \<le> distSq a b) acc \<Longrightarrow> sorted_wrt (\<lambda>a b. m2 \<le> distSq a b) (fold (keep m2) fs acc)"
proof (induction fs arbitrary: acc)
  case Nil
  then show ?case by simp
next
  case (Cons f fs)
  from Cons.IH [OF keep_apart [OF Cons.prems]] show ?case by simp
qed

lemma fold_keep_prefix: "\<exists>ys. fold (keep m2) fs acc = acc @ ys \<and> set ys \<subseteq> set fs"
proof (induction fs arbitrary: acc)
  case Nil
  then show ?case by simp
next
  case (Cons f fs)
  obtain ys where ys: "fold (keep m2) fs (keep m2 f acc) = keep m2 f acc @ ys" "set ys \<subseteq> set fs"
    using Cons.IH by blast
  from keep_cases [of f m2 acc] show ?case
  proof
    assume "list_ex (\<lambda>existing. distSq f existing < m2) acc \<and> keep m2 f acc = acc"
    with ys have "fold (keep m2) (f # fs) acc = acc @ ys" by simp
    moreover have "set ys \<subseteq> set (f # fs)" using ys by auto
    ultimately show ?thesis by blast
  next
    assume "\<not> list_ex (\<lambda>existing. distSq f existing < m2) acc \<and> keep m2 f acc = acc @ [f]"
    with ys have "fold (keep m2) (f # fs) acc = acc @ (f # ys)" by simp
    moreover have "set (f # ys) \<subseteq> set (f # fs)" using ys by auto
    ultimately show ?thesis by blast
  qed
qed

lemma fold_keep_rejected:
  "f \<in> set fs \<Longrightarrow> f \<in> set (fold (keep m2) fs acc) \<or> (\<exists>g \<in> set (fold (keep m2) fs acc). distSq f g < m2)"
proof (induction fs arbitrary: acc)
  case Nil
  then show ?case by simp
next
  case (Cons a fs)
  obtain ys where ys: "fold (keep m2) fs (keep m2 a acc) = keep m2 a acc @ ys"
    using fold_keep_prefix by blast
  show ?case
  proof (cases "f = a")
    case True
    from keep_cases [of a m2 acc] show ?thesis
    proof
      assume h: "list_ex (\<lambda>existing. distSq a existing < m2) acc \<and> keep m2 a acc = acc"
      then obtain g where "g \<in> set acc" "distSq a g < m2" by (auto simp: list_ex_iff)
      moreover have "fold (keep m2) (a # fs) acc = acc @ ys" using h ys by simp
      ultimately show ?thesis using True by auto
    next
      assume h: "\<not> list_ex (\<lambda>existing. distSq a existing < m2) acc \<and> keep m2 a acc = acc @ [a]"
      then have "fold (keep m2) (a # fs) acc = acc @ [a] @ ys" using ys by simp
      then show ?thesis using True by simp
    qed
  next
    case False
    with Cons.prems have "f \<in> set fs" by simp
    from Cons.IH [OF this] show ?thesis by simp
  qed
qed

lemma filterBySpacing_snoc:
  "filterBySpacing (fs @ [f]) m =
     (if \<exists>g \<in> set (filterBySpacing fs m). distSq f g < m * m then filterBySpacing fs m
      else filterBySpacing fs m @ [f])"
  using keep_cases [of f "m * m" "fold (keep (m * m)) fs []"]
  by (auto simp: filterBySpacing_fold list_ex_iff)

lemma sorted_wrt_insort_key:
  assumes "\<And>a b. R a b \<Longrightarrow> R b a" "sorted_wrt R xs" "\<forall>y \<in> set xs. R x y"
  shows "sorted_wrt R (insort_key k x xs)"
  using assms(2,3)
proof (induction xs)
  case Nil
  then show ?case by simp
next
  case (Cons a xs)
  then show ?case by (auto simp: set_insort_key dest: assms(1))
qed

lemma sorted_wrt_sort_key:
  assumes "\<And>a b. R a b \<Longrightarrow> R b a" "sorted_wrt R xs"
  shows "sorted_wrt R (sort_key k xs)"
  using assms(2)
proof (induction xs)
  case Nil
  then show ?case by simp
next
  case (Cons a xs)
  then show ?case by (simp add: sorted_wrt_insort_key assms(1))
qed

lemma sorted_wrt_slice0: "sorted_wrt R xs \<Longrightarrow> sorted_wrt R (slice0 xs e)"
  by (simp add: slice0_def)

lemma select_features_apart:
  "sorted_wrt (\<lambda>a b. m * m \<le> distSq a b) (select_features fs m d)"
proof -
  have "sorted_wrt (\<lambda>a b. m * m \<le> distSq a b) (filterBySpacing fs m)"
    unfolding filterBySpacing_fold by (rule fold_keep_apart) simp
  then have "sorted_wrt (\<lambda>a b. m * m \<le> distSq a b) (sort_by_confidence (filterBySpacing fs m))"
    unfolding sort_by_confidence_def by (rule sorted_wrt_sort_key [rotated]) (simp add: distSq_commute)
  then show ?thesis by (simp add: select_features_def Let_def sorted_wrt_slice0)
qed

lemma spaced_iff: 
  assumes "\<And>p q. R p q \<Longrightarrow> R q p" 
  shows "sorted_wrt R ps \<longleftrightarrow> (\<forall>i j. i < length ps \<and> j < length ps \<and> i \<noteq> j \<longrightarrow> R (ps ! i) (ps ! j))"
proof
  assume "sorted_wrt R ps"
  then have *: "\<And>i j. i < j \<Longrightarrow> j < length ps \<Longrightarrow> R (ps ! i) (ps ! j)"
    by (simp add: sorted_wrt_iff_nth_less)
  show "\<forall>i j. i < length ps \<and> j < length ps \<and> i \<noteq> j \<longrightarrow> R (ps ! i) (ps ! j)"
  proof (intro allI impI)
    fix i j assume h: "i < length ps \<and> j < length ps \<and> i \<noteq> j"
    then consider "i < j" | "j < i" by linarith
    then show "R (ps ! i) (ps ! j)"
      using h * assms by cases blast+
  qed
next
  assume "\<forall>i j. i < length ps \<and> j < length ps \<and> i \<noteq> j \<longrightarrow> R (ps ! i) (ps ! j)"
  then show "sorted_wrt R ps" by (simp add: sorted_wrt_iff_nth_less)
qed

lemma dist2d_commute: "dist2d p q = dist2d q p"
  by (simp add: dist2d_def algebra_simps)

lemma spaced_sorted_wrt: "spaced m ps \<longleftrightarrow> sorted_wrt (\<lambda>p q. m \<le> dist2d p q) ps"
  unfolding spaced_def by (rule spaced_iff [symmetric]) (simp add: dist2d_commute)

lemma dist2d_position: "dist2d (position a) (position b) = sqrt (distSq a b)"
  by (simp add: dist2d_def position_def distSq_def Let_def)

lemma le_sqrt_of_sq_le: "m * m \<le> d \<Longrightarrow> m \<le> sqrt d"
proof -
  assume "m * m \<le> d"
  then have "sqrt (m * m) \<le> sqrt d" by (rule real_sqrt_le_mono)
  moreover have "sqrt (m * m) = \<bar>m\<bar>" by simp
  ultimately show ?thesis by linarith
qed

lemma features_spaced: "spaced m (map position (select_features fs m d))"
  unfolding spaced_sorted_wrt sorted_wrt_map dist2d_position
  using select_features_apart [of m fs d]
  by (rule sorted_wrt_mono_rel [rotated]) (simp add: le_sqrt_of_sq_le)

section \<open>The mock points\<close>

lemma candidate_in_unit:
  assumes "\<forall>n. 0 \<le> rnd n \<and> rnd n < 1"
  shows "0 \<le> fst (candidate rnd k eR) \<and> fst (candidate rnd k eR) \<le> 1
       \<and> 0 \<le> snd (candidate rnd k eR) \<and> snd (candidate rnd k eR) \<le> 1"
proof (cases "rnd k < eR")
  case True
  define r where "r = 3 / 10 + rnd (k + 2) * (2 / 10)"
  define a where "a = rnd (k + 1) * pi * 2"
  have r: "0 \<le> r" "r \<le> 1 / 2" using assms [rule_format, of "k + 2"] by (simp_all add: r_def)
  have "\<bar>cos a\<bar> * r \<le> 1 * r" "\<bar>sin a\<bar> * r \<le> 1 * r"
    by (rule mult_right_mono [OF abs_cos_le_one r(1)], rule mult_right_mono [OF abs_sin_le_one r(1)])
  then have "\<bar>cos a * r\<bar> \<le> 1 * r" "\<bar>sin a * r\<bar> \<le> 1 * r"
    using r(1) by (simp_all add: abs_mult)
  then have "\<bar>cos a * r\<bar> \<le> 1 / 2" "\<bar>sin a * r\<bar> \<le> 1 / 2" using r by linarith+
  then have "0 \<le> 1 / 2 + cos a * r \<and> 1 / 2 + cos a * r \<le> 1 \<and> 0 \<le> 1 / 2 + sin a * r \<and> 1 / 2 + sin a * r \<le> 1"
    by linarith
  with True show ?thesis by (simp add: candidate_def Let_def r_def a_def)
next
  case False
  have "0 \<le> rnd (k + 1) \<and> rnd (k + 1) < 1" "0 \<le> rnd (k + 2) \<and> rnd (k + 2) < 1"
    using assms by blast+
  with False show ?thesis by (simp add: candidate_def)
qed

lemma place_accepts:
  "place rnd pts eR mD a k = (c, a', k') \<Longrightarrow> a' < maxAttempts \<Longrightarrow>
     \<not> tooClose pts c mD \<and> (\<exists>j. c = candidate rnd j eR)"
proof (induction rnd pts eR mD a k rule: place.induct)
  case (1 rnd points edgeRatio minDist attempts k)
  show ?case
  proof (cases "tooClose points (candidate rnd k edgeRatio) minDist")
    case False
    with "1.prems" show ?thesis by (auto simp: place.simps [of rnd points edgeRatio minDist attempts k] Let_def)
  next
    case True
    show ?thesis
    proof (cases "attempts + 1 < maxAttempts")
      case True
      with \<open>tooClose points (candidate rnd k edgeRatio) minDist\<close> "1.prems"
      have "place rnd points edgeRatio minDist (attempts + 1) (k + 3) = (c, a', k')"
        by (simp add: place.simps [of rnd points edgeRatio minDist attempts k] Let_def)
      from "1.IH" [OF refl _ True this "1.prems"(2)] \<open>tooClose points (candidate rnd k edgeRatio) minDist\<close>
      show ?thesis by simp
    next
      case False
      with \<open>tooClose points (candidate rnd k edgeRatio) minDist\<close> "1.prems" show ?thesis
        by (auto simp: place.simps [of rnd points edgeRatio minDist attempts k] Let_def)
    qed
  qed
qed

lemma not_tooClose_dist:
  assumes "\<not> tooClose pts (x, y) mD" "p \<in> set pts"
  shows "mD \<le> dist2d p \<lparr>pt_x = x, pt_y = y, pt_weight = w, pt_feature_type = t\<rparr>"
proof -
  let ?d = "(pt_x p - x) * (pt_x p - x) + (pt_y p - y) * (pt_y p - y)"
  have "\<not> sqrt_lt ?d mD" using assms by (auto simp: tooClose_def list_ex_iff Let_def)
  moreover have "0 \<le> ?d" by simp
  ultimately have "\<not> sqrt ?d < mD" using sqrt_lt_iff [of ?d mD] by blast
  then show ?thesis by (simp add: dist2d_def)
qed

lemma mock_step_spaced:
  assumes rnd: "\<forall>n. 0 \<le> rnd n \<and> rnd n < 1"
    and inv: "sorted_wrt (\<lambda>p q. mD \<le> dist2d p q) pts"
  shows "sorted_wrt (\<lambda>p q. mD \<le> dist2d p q) (fst (mock_step rnd eR mD w (pts, k)))"
proof -
  obtain x y a k' where pl: "place rnd pts eR mD 0 k = ((x, y), a, k')"
    by (metis prod.collapse)
  show ?thesis
  proof (cases "a < maxAttempts")
    case False
    with pl inv show ?thesis by (simp add: mock_step_def)
  next
    case True
    from place_accepts [OF pl True] obtain j where nc: "\<not> tooClose pts (x, y) mD"
      and c: "(x, y) = candidate rnd j eR" by blast
    from candidate_in_unit [OF rnd, of j eR] c have "0 \<le> x" "x \<le> 1" "0 \<le> y" "y \<le> 1"
      by (metis fst_conv, metis fst_conv, metis snd_conv, metis snd_conv)
    then have cl: "max 0 (min 1 x) = x" "max 0 (min 1 y) = y" by simp_all
    have "\<forall>p \<in> set pts. mD \<le> dist2d p \<lparr>pt_x = x, pt_y = y, pt_weight = w,
        pt_feature_type = (if rnd k' < eR then ''edge'' else ''center'')\<rparr>"
      using not_tooClose_dist [OF nc] by blast
    with pl True inv cl show ?thesis
      by (simp add: mock_step_def sorted_wrt_append)
  qed
qed

lemma mock_fold_spaced:
  assumes rnd: "\<forall>n. 0 \<le> rnd n \<and> rnd n < 1"
  shows "sorted_wrt (\<lambda>p q. mD \<le> dist2d p q) (fst s) \<Longrightarrow>
     sorted_wrt (\<lambda>p q. mD \<le> dist2d p q) (fst (fold (\<lambda>i s. mock_step rnd eR mD w s) is s))"
proof (induction "is" arbitrary: s)
  case Nil
  then show ?case by simp
next
  case (Cons i "is")
  obtain pts k where s: "s = (pts, k)" by (cases s)
  from Cons.prems have "sorted_wrt (\<lambda>p q. mD \<le> dist2d p q) (fst (mock_step rnd eR mD w s))"
    unfolding s using mock_step_spaced [OF rnd] by simp
  from Cons.IH [OF this] show ?case by simp
qed

lemma mock_points_spaced:
  assumes "\<forall>n. 0 \<le> rnd n \<and> rnd n < 1"
  shows "spaced (s / 100) (generateMockPoints d t s w rnd)"
  unfolding spaced_sorted_wrt generateMockPoints_def Let_def
  by (rule mock_fold_spaced [OF assms]) simp

lemma length_mock_step: "length (fst (mock_step rnd eR mD w s)) \<le> length (fst s) + 1"
  by (simp add: mock_step_def split: prod.splits)

lemma length_mock_fold:
  "length (fst (fold (\<lambda>i s. mock_step rnd eR mD w s) is s)) \<le> length (fst s) + length is"
proof (induction "is" arbitrary: s)
  case Nil
  then show ?case by simp
next
  case (Cons i "is")
  from Cons.IH [of "mock_step rnd eR mD w s"] length_mock_step [of rnd eR mD w s]
  show ?case by simp
qed

lemma length_mock_points:
  "length (generateMockPoints d t s w rnd) \<le> nat \<lfloor>(d / 100) * 180 + 20\<rfloor>"
  using length_mock_fold [of rnd "t / 255" "s / 100" w "[0..<nat \<lfloor>(d / 100) * 180 + 20\<rfloor>]" "([], 0)"]
  by (simp add: generateMockPoints_def Let_def)

lemma mock_step_prefix: "\<exists>ys. fst (mock_step rnd eR mD w (pts, k)) = pts @ ys"
  by (simp add: mock_step_def split: prod.splits)

lemma mock_fold_prefix:
  "\<exists>ys. fst (fold (\<lambda>i s. mock_step rnd eR mD w s) is s) = fst s @ ys"
proof (induction "is" arbitrary: s)
  case Nil
  then show ?case by simp
next
  case (Cons i "is")
  obtain pts k where s: "s = (pts, k)" by (cases s)
  obtain ys where ys: "fst (mock_step rnd eR mD w s) = fst s @ ys"
    unfolding s using mock_step_prefix by fastforce
  obtain zs where "fst (fold (\<lambda>i s. mock_step rnd eR mD w s) is (mock_step rnd eR mD w s))
      = fst (mock_step rnd eR mD w s) @ zs"
    using Cons.IH by blast
  with ys show ?case by simp
qed

section \<open>Images of constant intensity\<close>

lemma range_step_5_less: "v \<in> set (range_step 0 b 5) \<Longrightarrow> v < b"
  by (auto simp: range_step_def)

lemma update_replicate_same: "(replicate n z)[i := z] = replicate n z"
  by (cases "i < n") (auto simp: list_eq_iff_nth_eq nth_list_update)

lemma fold_update_same:
  "(\<And>y x. (y, x) \<in> set cs \<Longrightarrow> v y x = z) \<Longrightarrow>
     fold (\<lambda>(y, x) e. e[i y x := v y x]) cs (replicate n z) = replicate n z"
proof (induction cs)
  case Nil
  then show ?case by simp
next
  case (Cons a cs)
  obtain y x where a: "a = (y, x)" by (cases a)
  have "v y x = z" using Cons.prems [of y x] a by simp
  with Cons a show ?case by (simp add: update_replicate_same)
qed

lemma interior_index:
  assumes "1 \<le> y" "y < h - 1" "1 \<le> x" "x < w - 1" "ky < 3" "kx < 3"
  shows "(y + ky - 1) * w + (x + kx - 1) < w * (h::nat)"
proof -
  have "y + ky - 1 \<le> h - 1" "x + kx - 1 < w" using assms by simp_all
  then have "(y + ky - 1) * w + (x + kx - 1) < (h - 1) * w + w"
    by (meson add_le_less_mono mult_le_mono1)
  also have "\<dots> = h * w" using assms by (cases h) simp_all
  finally show ?thesis by (simp add: mult.commute)
qed

lemma sobel_sum_constant:
  assumes "1 \<le> y" "y < h - 1" "1 \<le> x" "x < w - 1"
  shows "sobel_sum kern (replicate (w * h) c) w x y =
     sum_list (map (\<lambda>ky. sum_list (map (\<lambda>kx. int c * kern ! (ky * 3 + kx)) [0..<3])) [0..<3])"
proof -
  have rd: "replicate (w * h) c ! ((y + ky - 1) * w + (x + kx - 1)) = c"
    if "ky \<in> set [0..<3]" "kx \<in> set [0..<3]" for ky kx
    using interior_index [OF assms, of ky kx] that by simp
  have "map (\<lambda>kx. int (replicate (w * h) c ! ((y + ky - 1) * w + (x + kx - 1))) * kern ! (ky * 3 + kx)) [0..<3]
      = map (\<lambda>kx. int c * kern ! (ky * 3 + kx)) [0..<3]" if "ky \<in> set [0..<3]" for ky
    by (rule map_cong [OF refl]) (simp only: rd [OF that])
  then have "map (\<lambda>ky. sum_list (map (\<lambda>kx.
        int (replicate (w * h) c ! ((y + ky - 1) * w + (x + kx - 1))) * kern ! (ky * 3 + kx)) [0..<3])) [0..<3]
      = map (\<lambda>ky. sum_list (map (\<lambda>kx. int c * kern ! (ky * 3 + kx)) [0..<3])) [0..<3]"
    by (intro map_cong [OF refl]) (simp only:)
  then show ?thesis unfolding sobel_sum_def by (simp only:)
qed

lemma sobel_constant_zero:
  assumes "1 \<le> y" "y < h - 1" "1 \<le> x" "x < w - 1"
  shows "sobel_sum sobelX (replicate (w * h) c) w x y = 0"
    "sobel_sum sobelY (replicate (w * h) c) w x y = 0"
  unfolding sobel_sum_constant [OF assms]
  by (simp_all add: sobelX_def sobelY_def numeral_3_eq_3)

lemma applySobelFilter_constant:
  assumes "0 \<le> t"
  shows "applySobelFilter (replicate (w * h) c) w h t = replicate (w * h) 0"
  unfolding applySobelFilter_def Let_def
proof (rule fold_update_same)
  fix y x assume "(y, x) \<in> set (concat (map (\<lambda>y. map (Pair y) [1..<w - 1]) [1..<h - 1]))"
  then have b: "1 \<le> y" "y < h - 1" "1 \<le> x" "x < w - 1" by auto
  show "(if sqrt_gt (real_of_int
            (sobel_sum sobelX (replicate (w * h) c) w x y * sobel_sum sobelX (replicate (w * h) c) w x y +
             sobel_sum sobelY (replicate (w * h) c) w x y * sobel_sum sobelY (replicate (w * h) c) w x y)) t
         then 255 else 0) = (0::nat)"
    using assms by (simp add: sobel_constant_zero [OF b] sqrt_gt_def not_less)
qed

lemma window_sum_constant:
  assumes "tm 0 0 = 0"
  shows "window_sum (replicate n c) w x y tm = 0"
proof -
  have "\<And>wy wx.
      (let idx = (y + wy - windowSize) * w + (x + wx - windowSize);
           idxX = (y + wy - windowSize) * w + (x + wx - windowSize + 1);
           idxY = (y + wy - windowSize + 1) * w + (x + wx - windowSize)
       in if idxX < length (replicate n c) \<and> idxY < length (replicate n c)
          then tm (int (replicate n c ! idxX) - int (replicate n c ! idx))
                 (int (replicate n c ! idxY) - int (replicate n c ! idx))
          else 0) = 0"
    using assms by (simp add: Let_def)
  then show ?thesis unfolding window_sum_def by simp
qed

lemma detectCorners_constant:
  assumes "0 \<le> t"
  shows "detectCorners (replicate n c) w h t = []"
  using assms by (simp add: detectCorners_def window_sum_constant Let_def not_less)

lemma detectCurvePoints_zero: "detectCurvePoints (replicate (w * h) 0) w h = []"
proof -
  have "\<And>y x. y \<in> set (range_step 0 h 5) \<Longrightarrow> x \<in> set (range_step 0 w 5) \<Longrightarrow>
      replicate (w * h) (0::nat) ! (y * w + x) = 0"
  proof -
    fix y x assume "y \<in> set (range_step 0 h 5)" "x \<in> set (range_step 0 w 5)"
    then have "y < h" "x < w" by (simp_all add: range_step_5_less)
    then have "y * w + x < h * w"
      by (metis add_less_cancel_left less_le_trans mult_Suc Suc_leI mult_le_mono1 add.commute)
    then show "replicate (w * h) (0::nat) ! (y * w + x) = 0" by (simp add: mult.commute)
  qed
  then show ?thesis by (simp add: detectCurvePoints_def cong: map_cong)
qed

lemma select_features_Nil: "select_features [] m d = []"
  by (simp add: select_features_def filterBySpacing_def slice0_def sort_by_confidence_def)

lemma detect_blank:
  assumes "0 \<le> t" "constant_intensity img c"
  shows "detectFeaturesFromImageData img t s d = []"
  using assms
  by (simp add: detectFeaturesFromImageData_def Let_def constant_intensity_def
      applySobelFilter_constant detectCorners_constant detectCurvePoints_zero select_features_Nil)

lemma length_concat_pixels:
  "length (concat (map (\<lambda>i. case px i of (r, g, b, a) \<Rightarrow> [r, g, b, a]) [0..<n])) = 4 * n"
  by (induction n) (simp_all split: prod.splits)

lemma nth_concat_pixels:
  "i < n \<Longrightarrow> k < 4 \<Longrightarrow>
     concat (map (\<lambda>i. case px i of (r, g, b, a) \<Rightarrow> [r, g, b, a]) [0..<n]) ! (4 * i + k)
       = (case px i of (r, g, b, a) \<Rightarrow> [r, g, b, a]) ! k"
proof (induction n)
  case 0
  then show ?case by simp
next
  case (Suc n)
  show ?case
  proof (cases "i < n")
    case True
    then have "4 * i + k < 4 * n" using Suc.prems(2) by simp
    with Suc.IH [OF True Suc.prems(2)] show ?thesis
      by (simp add: nth_append length_concat_pixels)
  next
    case False
    with Suc.prems have "i = n" by simp
    then show ?thesis using Suc.prems(2)
      by (simp add: nth_append length_concat_pixels)
  qed
qed

lemma grayscale_pixels:
  "grayscale w h (data (image_of_pixels w h px)) = map (\<lambda>idx. luminance (px idx)) [0..<w * h]"
proof -
  let ?d = "concat (map (\<lambda>i. case px i of (r, g, b, a) \<Rightarrow> [r, g, b, a]) [0..<w * h])"
  have "(if 4 * idx + 2 < length ?d
         then to_uint8 (299 / 1000 * real (?d ! (4 * idx)) + 587 / 1000 * real (?d ! (4 * idx + 1))
                      + 114 / 1000 * real (?d ! (4 * idx + 2)))
         else 0) = luminance (px idx)"
    if "idx \<in> set [0..<w * h]" for idx
  proof -
    from that have i: "idx < w * h" by simp
    obtain r g b a where p: "px idx = (r, g, b, a)" by (cases "px idx")
    from nth_concat_pixels [OF i, of 0 px] nth_concat_pixels [OF i, of 1 px]
      nth_concat_pixels [OF i, of 2 px] i p
    show ?thesis by (simp add: length_concat_pixels luminance_def)
  qed
  then have "map (\<lambda>idx. if 4 * idx + 2 < length ?d
         then to_uint8 (299 / 1000 * real (?d ! (4 * idx)) + 587 / 1000 * real (?d ! (4 * idx + 1))
                      + 114 / 1000 * real (?d ! (4 * idx + 2)))
         else 0) [0..<w * h] = map (\<lambda>idx. luminance (px idx)) [0..<w * h]"
    by (intro map_cong [OF refl])
  then show ?thesis by (simp add: grayscale_def image_of_pixels_def)
qed

lemma image_of_pixels_dims:
  "width (image_of_pixels w h px) = w" "height (image_of_pixels w h px) = h"
  by (simp_all add: image_of_pixels_def)

lemma uniform_constant: "constant_intensity (uniform_image w h colour) (luminance colour)"
  by (simp add: constant_intensity_def uniform_image_def image_of_pixels_dims grayscale_pixels
      map_replicate_const)

lemma black_constant: "constant_intensity (uniform_image w h (0, 0, 0, a)) 0"
  using uniform_constant [of w h "(0, 0, 0, a)"] by (simp add: luminance_def to_uint8_def)

lemma filterBySpacing_Cons_nonempty: "filterBySpacing (f # fs) m \<noteq> []"
proof -
  have "keep (m * m) f [] = [f]" by (simp add: keep_def)
  then obtain ys where "filterBySpacing (f # fs) m = [f] @ ys"
    using fold_keep_prefix [of "m * m" fs "[f]"] by (auto simp: filterBySpacing_fold)
  then show ?thesis by simp
qed

lemma select_features_nonempty:
  assumes "fs \<noteq> []" "1 \<le> maxPoints d"
  shows "select_features fs m d \<noteq> []"
proof -
  obtain f fs' where "fs = f # fs'" using assms(1) by (cases fs) auto
  then have "sort_by_confidence (filterBySpacing fs m) \<noteq> []"
    using filterBySpacing_Cons_nonempty [of f fs' m]
    by (metis length_sort list.size(3) length_0_conv sort_by_confidence_def)
  with assms(2) show ?thesis
    by (simp add: select_features_def slice0_def)
qed

lemma corners_black_7: "detectCorners (replicate (7 * 7) 0) 7 7 (- 1) = [(3, 3, 0)]"
  by (simp add: detectCorners_def window_sum_constant range_step_def windowSize_def)

lemma maxPoints_50: "maxPoints 50 = 120"
  by (simp add: maxPoints_def)

lemma detect_black_negative_threshold:
  "detectFeaturesFromImageData (uniform_image 7 7 (0, 0, 0, 255)) (- 1) 5 50 \<noteq> []"
proof -
  have g: "grayscale 7 7 (data (uniform_image 7 7 (0, 0, 0, 255))) = replicate (7 * 7) 0"
    using black_constant [of 7 7 255]
    by (simp add: constant_intensity_def uniform_image_def image_of_pixels_dims)
  have "detectFeaturesFromImageData (uniform_image 7 7 (0, 0, 0, 255)) (- 1) 5 50 =
      select_features (map (feature Corner) [(3, 3, 0)] @
        map (feature Curve) (detectCurvePoints
          (applySobelFilter (replicate (7 * 7) 0) 7 7 (- 1)) 7 7)) 5 50"
    unfolding detectFeaturesFromImageData_def Let_def
    by (simp only: g [unfolded uniform_image_def] uniform_image_def image_of_pixels_dims corners_black_7)
  then show ?thesis by (simp add: select_features_nonempty maxPoints_50)
qed

section \<open>Concrete runs\<close>

lemma place_empty: "place rnd [] eR mD a k = (candidate rnd k eR, a, k + 3)"
  by (simp add: place.simps [of rnd "[]" eR mD a k] tooClose_def)

lemma mock_step_first:
  "mock_step rnd eR mD w ([], k) =
     ([\<lparr>pt_x = max 0 (min 1 (fst (candidate rnd k eR))),
        pt_y = max 0 (min 1 (snd (candidate rnd k eR))),
        pt_weight = w,
        pt_feature_type = (if rnd (k + 3) < eR then ''edge'' else ''center'')\<rparr>], k + 4)"
  by (simp add: mock_step_def place_empty maxAttempts_def split: prod.splits)

lemma mock_points_first:
  assumes "1 \<le> \<lfloor>(d / 100) * 180 + 20\<rfloor>"
  shows "\<exists>ys. generateMockPoints d t s w rnd =
     \<lparr>pt_x = max 0 (min 1 (fst (candidate rnd 0 (t / 255)))),
      pt_y = max 0 (min 1 (snd (candidate rnd 0 (t / 255)))),
      pt_weight = w,
      pt_feature_type = (if rnd 3 < t / 255 then ''edge'' else ''center'')\<rparr> # ys"
proof -
  let ?n = "nat \<lfloor>(d / 100) * 180 + 20\<rfloor>"
  have "0 < ?n" using assms by simp
  then have "[0..<?n] = 0 # [Suc 0..<?n]" by (simp add: upt_conv_Cons)
  then have "generateMockPoints d t s w rnd =
      fst (fold (\<lambda>i. mock_step rnd (t / 255) (s / 100) w) [Suc 0..<?n]
        (mock_step rnd (t / 255) (s / 100) w ([], 0)))"
    by (simp add: generateMockPoints_def Let_def)
  then show ?thesis
    using mock_fold_prefix [of rnd "t / 255" "s / 100" w "[Suc 0..<?n]"
        "mock_step rnd (t / 255) (s / 100) w ([], 0)"]
    by (auto simp: mock_step_first)
qed

lemma mock_half_first:
  "\<exists>ys. generateMockPoints 50 100 5 1 (steady (1 / 2)) =
     \<lparr>pt_x = 1 / 2, pt_y = 1 / 2, pt_weight = 1, pt_feature_type = ''center''\<rparr> # ys"
  using mock_points_first [of 50 100 5 1 "steady (1 / 2)"]
  by (simp add: candidate_def steady_def)

lemma mock_three_quarter_first:
  "\<exists>ys. generateMockPoints 50 100 5 1 (steady (3 / 4)) =
     \<lparr>pt_x = 13 / 20, pt_y = 13 / 20, pt_weight = 1, pt_feature_type = ''center''\<rparr> # ys"
  using mock_points_first [of 50 100 5 1 "steady (3 / 4)"]
  by (simp add: candidate_def steady_def)

lemma mock_step_second:
  "mock_step draws (100 / 255) (5 / 100) 1
     ([\<lparr>pt_x = 1 / 2, pt_y = 1 / 2, pt_weight = 1, pt_feature_type = ''center''\<rparr>], 4) =
   ([\<lparr>pt_x = 1 / 2, pt_y = 1 / 2, pt_weight = 1, pt_feature_type = ''center''\<rparr>,
     \<lparr>pt_x = 13 / 20, pt_y = 1 / 2, pt_weight = 1, pt_feature_type = ''center''\<rparr>], 8)"
  by (simp add: mock_step_def place.simps [of draws _ _ _ 0 4] candidate_def tooClose_def
      sqrt_lt_def draws_def maxAttempts_def Let_def)

lemma mock_draws_two:
  "\<exists>ys. generateMockPoints 50 100 5 1 draws =
     \<lparr>pt_x = 1 / 2, pt_y = 1 / 2, pt_weight = 1, pt_feature_type = ''center''\<rparr> #
     \<lparr>pt_x = 13 / 20, pt_y = 1 / 2, pt_weight = 1, pt_feature_type = ''center''\<rparr> # ys"
proof -
  let ?f = "\<lambda>i::nat. mock_step draws (100 / 255) (5 / 100) 1"
  have "[0..<110] = 0 # Suc 0 # [2..<110]" by (simp add: upt_conv_Cons)
  then have "generateMockPoints 50 100 5 1 draws =
      fst (fold ?f [2..<110] (mock_step draws (100 / 255) (5 / 100) 1
        (mock_step draws (100 / 255) (5 / 100) 1 ([], 0))))"
    by (simp add: generateMockPoints_def Let_def)
  moreover have "mock_step draws (100 / 255) (5 / 100) 1 ([], 0) =
      ([\<lparr>pt_x = 1 / 2, pt_y = 1 / 2, pt_weight = 1, pt_feature_type = ''center''\<rparr>], 4)"
    by (simp add: mock_step_first candidate_def draws_def)
  ultimately have "generateMockPoints 50 100 5 1 draws =
      fst (fold ?f [2..<110]
        ([\<lparr>pt_x = 1 / 2, pt_y = 1 / 2, pt_weight = 1, pt_feature_type = ''center''\<rparr>,
          \<lparr>pt_x = 13 / 20, pt_y = 1 / 2, pt_weight = 1, pt_feature_type = ''center''\<rparr>], 8))"
    by (simp only: mock_step_second)
  then show ?thesis
    using mock_fold_prefix [of draws "100 / 255" "5 / 100" 1 "[2..<110]"
        "([\<lparr>pt_x = 1 / 2, pt_y = 1 / 2, pt_weight = 1, pt_feature_type = ''center''\<rparr>,
          \<lparr>pt_x = 13 / 20, pt_y = 1 / 2, pt_weight = 1, pt_feature_type = ''center''\<rparr>], 8)"]
    by auto
qed

lemma not_spaced_draws: "\<not> spaced 5 (generateMockPoints 50 100 5 1 draws)"
proof
  assume sp: "spaced 5 (generateMockPoints 50 100 5 1 draws)"
  obtain ys where ys: "generateMockPoints 50 100 5 1 draws =
     \<lparr>pt_x = 1 / 2, pt_y = 1 / 2, pt_weight = 1, pt_feature_type = ''center''\<rparr> #
     \<lparr>pt_x = 13 / 20, pt_y = 1 / 2, pt_weight = 1, pt_feature_type = ''center''\<rparr> # ys"
    using mock_draws_two by blast
  from sp [unfolded spaced_def, rule_format, of 0 1] ys
  have "5 \<le> dist2d \<lparr>pt_x = 1 / 2, pt_y = 1 / 2, pt_weight = 1, pt_feature_type = ''center''\<rparr>
      \<lparr>pt_x = 13 / 20, pt_y = 1 / 2, pt_weight = 1, pt_feature_type = ''center''\<rparr>" by simp
  then have "5 \<le> sqrt (9 / 400)" by (simp add: dist2d_def)
  moreover have "sqrt (9 / 400) < 5" by (rule real_less_lsqrt) simp_all
  ultimately show False by simp
qed

lemma gray_spot:
  "grayscale 7 7 (data spot_image) = map (\<lambda>idx. if idx = 24 then 225 else 0) [0..<49]"
proof -
  have "luminance (if idx = 24 then (255, 255, 0, 255) else (0, 0, 0, 255)) = (if idx = 24 then 225 else 0)" for idx :: nat
    by (simp add: luminance_def to_uint8_def)
  then show ?thesis unfolding spot_image_def grayscale_pixels by simp
qed

lemma window_spot:
  "window_sum (map (\<lambda>idx. if idx = 24 then 225 else 0) [0..<49]) 7 3 3 tm =
     tm 0 225 + tm 225 0 + tm (- 225) (- 225) + 39 * tm 0 0"
  by (simp add: window_sum_def windowSize_def eval_nat_numeral Let_def)


section \<open>Point extraction: spacing, order, determinism, bounds and fallback\<close>

lemma detectFeatures_features:
  "detectFeaturesFromImageData img t m d = select_features
     (map (feature Corner) (detectCorners (grayscale (width img) (height img) (data img)) (width img) (height img) t)
      @ map (feature Curve) (detectCurvePoints
          (applySobelFilter (grayscale (width img) (height img) (data img)) (width img) (height img) t)
          (width img) (height img))) m d"
  by (simp add: detectFeaturesFromImageData_def Let_def)

lemma range_step_empty: "stop \<le> start \<Longrightarrow> range_step start stop step = []"
  by (cases step) (simp_all add: range_step_def)

lemma detect_zero_size:
  assumes "width img = 0 \<or> height img = 0"
  shows "detectFeaturesFromImageData img t m d = []"
proof -
  have "detectCorners gray (width img) (height img) t = []" for gray
    using assms by (auto simp: detectCorners_def range_step_empty)
  moreover have "detectCurvePoints edges (width img) (height img) = []" for edges
    using assms by (auto simp: detectCurvePoints_def range_step_empty)
  ultimately show ?thesis by (simp add: detectFeatures_features select_features_Nil)
qed

lemma spaced_coordinates:
  assumes "\<And>f. pt_x (g f) = pt_x (g' f) \<and> pt_y (g f) = pt_y (g' f)"
  shows "spaced m (map g fs) = spaced m (map g' fs)"
  by (simp add: spaced_def dist2d_def assms)

lemma geometric_points_spaced:
  "spaced m (map (pixel_position img) (detectGeometricFeatures (Loaded img) t m d))"
proof (cases "width img = 0 \<or> height img = 0")
  case True
  then show ?thesis by (simp add: detectGeometricFeatures_def detect_zero_size spaced_def)
next
  case False
  have "spaced m (map (pixel_position img) (detectGeometricFeatures (Loaded img) t m d)) =
      spaced m (map position (detectFeaturesFromImageData img t m d))"
    unfolding detectGeometricFeatures_def image_load.case map_map
    by (rule spaced_coordinates) (use False in \<open>simp add: pixel_position_def position_def\<close>)
  then show ?thesis by (simp add: detectFeatures_features features_spaced)
qed

lemma length_slice0: "0 \<le> e \<Longrightarrow> int (length (slice0 xs e)) \<le> e"
  by (simp add: slice0_def)

lemma maxPoints_nonneg: "- 10 \<le> d \<Longrightarrow> 0 \<le> maxPoints d"
proof -
  assume "- 10 \<le> d"
  then have "0 \<le> (d / 100) * 200 + 20" by simp
  then show ?thesis unfolding maxPoints_def by (simp only: zero_le_floor)
qed

lemma length_select_features: "- 10 \<le> d \<Longrightarrow> int (length (select_features fs m d)) \<le> maxPoints d"
  by (simp add: select_features_def length_slice0 maxPoints_nonneg)

lemma length_geometric:
  "length (detectGeometricFeatures (Loaded img) t m d) = length (detectFeaturesFromImageData img t m d)"
  by (simp add: detectGeometricFeatures_def)

lemma sorted_select_features:
  "sorted_wrt (\<lambda>a b. f_confidence b \<le> f_confidence a) (select_features fs m d)"
proof -
  have "sorted (map (\<lambda>ft. - f_confidence ft) (sort_by_confidence (filterBySpacing fs m)))"
    by (simp add: sort_by_confidence_def)
  then have "sorted_wrt (\<lambda>a b. f_confidence b \<le> f_confidence a) (sort_by_confidence (filterBySpacing fs m))"
    by (simp add: sorted_map)
  then show ?thesis by (simp add: select_features_def sorted_wrt_slice0)
qed

lemma set_slice0: "set (slice0 xs e) \<subseteq> set xs"
  by (auto simp: slice0_def dest: in_set_takeD)

lemma set_filterBySpacing: "set (filterBySpacing fs m) \<subseteq> set fs"
  using fold_keep_prefix [of "m * m" fs "[]"] by (auto simp: filterBySpacing_fold)

lemma set_select_features: "set (select_features fs m d) \<subseteq> set (filterBySpacing fs m)"
  using set_slice0 [of "sort_by_confidence (filterBySpacing fs m)" "maxPoints d"]
  by (simp add: select_features_def sort_by_confidence_def)

lemma filterBySpacing_rejected:
  "c \<in> set fs \<Longrightarrow> c \<notin> set (filterBySpacing fs m) \<Longrightarrow>
     \<exists>g \<in> set (filterBySpacing fs m). distSq c g < m * m"
  using fold_keep_rejected [of c fs "m * m" "[]"] by (simp add: filterBySpacing_fold)

lemma corners_spot: "detectCorners (grayscale 7 7 (data spot_image)) 7 7 100 = [(3, 3, 6048421875 / 1000000)]"
  unfolding gray_spot
  by (simp add: detectCorners_def window_spot range_step_def windowSize_def)

lemma detect_spot_nonempty: "detectGeometricFeatures (Loaded spot_image) 100 5 50 \<noteq> []"
proof -
  have "detectFeaturesFromImageData spot_image 100 5 50 \<noteq> []"
    unfolding detectFeatures_features
    by (rule select_features_nonempty)
      (simp_all add: spot_image_def image_of_pixels_dims corners_spot [unfolded spot_image_def] maxPoints_50)
  then show ?thesis by (simp add: detectGeometricFeatures_def)
qed

lemma queryFn_local:
  assumes "imageId \<noteq> None" "imageId \<noteq> Some []" "imageUrl \<noteq> None" "imageUrl \<noteq> Some []"
    "detectGeometricFeatures img t m d \<noteq> []"
  shows "queryFn imageId imageUrl True ApiFailed img d t m w rnd now =
     Inr \<lparr>ex_id = LocalId now, ex_points = detectGeometricFeatures img t m d\<rparr>"
  using assms by (simp add: queryFn_def Let_def)

lemma queryFn_server:
  assumes "imageId \<noteq> None" "imageId \<noteq> Some []"
  shows "queryFn imageId imageUrl useGeo (ApiOk r) img d t m w rnd now = Inr r"
  using assms by (simp add: queryFn_def)

lemma queryFn_mock:
  assumes "imageId \<noteq> None" "imageId \<noteq> Some []" "detectGeometricFeatures img t m d = []"
  shows "queryFn imageId imageUrl useGeo ApiFailed img d t m w rnd now =
     Inr \<lparr>ex_id = MockId now, ex_points = generateMockPoints d t m w rnd\<rparr>"
  using assms by (simp add: queryFn_def Let_def)

lemma geometric_blank:
  assumes "0 \<le> t" "constant_intensity img c"
  shows "detectGeometricFeatures (Loaded img) t m d = []"
  using detect_blank [OF assms] by (simp add: detectGeometricFeatures_def)


text \<open>
  C1 (as amended). On the detection path every two selected features are at least
  \<open>minSpacing\<close> apart in pixel coordinates, and so are the returned points once their
  coordinates are multiplied back by the width and height of the image; on the mock path,
  for draws in [0, 1), every two returned points are at least \<open>minSpacing / 100\<close> apart.
\<close>

theorem extraction_spacing:
  "spaced minSpacing (map position (detectFeaturesFromImageData img t minSpacing d))
   \<and> spaced minSpacing (map (pixel_position img) (detectGeometricFeatures (Loaded img) t minSpacing d))
   \<and> ((\<forall>n. 0 \<le> rnd n \<and> rnd n < 1) \<longrightarrow>
        spaced (minSpacing / 100) (generateMockPoints d t minSpacing w rnd))"
  by (simp add: detectFeatures_features features_spaced geometric_points_spaced mock_points_spaced)

theorem extraction_spacing_witness:
  "(\<forall>n. 0 \<le> draws n \<and> draws n < 1)
   \<and> 5 / 100 \<le> dist2d \<lparr>pt_x = 1 / 2, pt_y = 1 / 2, pt_weight = 1, pt_feature_type = ''center''\<rparr>
        \<lparr>pt_x = 13 / 20, pt_y = 1 / 2, pt_weight = 1, pt_feature_type = ''center''\<rparr>"
proof -
  have rng: "\<forall>n. 0 \<le> draws n \<and> draws n < 1" by (simp add: draws_def)
  with extraction_spacing [of 5 spot_image 100 50 draws 1]
  have sp: "spaced (5 / 100) (generateMockPoints 50 100 5 1 draws)" by blast
  obtain ys where ys: "generateMockPoints 50 100 5 1 draws =
     \<lparr>pt_x = 1 / 2, pt_y = 1 / 2, pt_weight = 1, pt_feature_type = ''center''\<rparr> #
     \<lparr>pt_x = 13 / 20, pt_y = 1 / 2, pt_weight = 1, pt_feature_type = ''center''\<rparr> # ys"
    using mock_draws_two by blast
  from sp [unfolded spaced_def, rule_format, of 0 1] ys rng show ?thesis by simp
qed

text \<open>
  With the default parameters (density 50, threshold 100, minimum spacing 5) and the draws
  above, the mock path returns two points 0.15 apart, which is less than 5.
\<close>

theorem literal_spacing_counterexample:
  "\<not> spaced 5 (generateMockPoints 50 100 5 1 draws)"
  by (rule not_spaced_draws)

text \<open>
  C2 (as amended). The candidates are the corners followed by the curve points, each in
  raster order. \<^verbatim>\<open>filterBySpacing\<close> visits them in that order, not by weight: a candidate is kept exactly when no candidate kept before
  it is closer than the minimum distance, so every rejected candidate lies within the
  minimum distance of a kept one. Only afterwards are the kept candidates sorted by
  descending confidence and cut to \<open>maxPoints\<close>.
\<close>

theorem suppression_in_generation_order:
  "detectFeaturesFromImageData img t m d =
     select_features
       (map (feature Corner)
          (detectCorners (grayscale (width img) (height img) (data img)) (width img) (height img) t)
        @ map (feature Curve)
          (detectCurvePoints
             (applySobelFilter (grayscale (width img) (height img) (data img)) (width img) (height img) t)
             (width img) (height img))) m d
   \<and> filterBySpacing [] m = []
   \<and> filterBySpacing (fs @ [f]) m =
       (if \<exists>g \<in> set (filterBySpacing fs m). distSq f g < m * m then filterBySpacing fs m
        else filterBySpacing fs m @ [f])
   \<and> (\<forall>c \<in> set fs. c \<notin> set (filterBySpacing fs m) \<longrightarrow>
         (\<exists>g \<in> set (filterBySpacing fs m). distSq c g < m * m))
   \<and> select_features fs m d = slice0 (sort_by_confidence (filterBySpacing fs m)) (maxPoints d)
   \<and> sorted_wrt (\<lambda>a b. f_confidence b \<le> f_confidence a) (select_features fs m d)
   \<and> set (select_features fs m d) \<subseteq> set (filterBySpacing fs m)"
  using filterBySpacing_snoc [of fs f m] filterBySpacing_rejected [of _ fs m]
    sorted_select_features [of fs m d] set_select_features [of fs m d]
    detectFeatures_features [of img t m d]
  by (auto simp: filterBySpacing_fold select_features_def)

theorem suppression_in_generation_order_witness:
  "\<lparr>f_type = Corner, f_x = 5, f_y = 3, f_confidence = 2\<rparr>
      \<in> set [\<lparr>f_type = Corner, f_x = 3, f_y = 3, f_confidence = 1\<rparr>,
              \<lparr>f_type = Corner, f_x = 5, f_y = 3, f_confidence = 2\<rparr>]
   \<and> \<lparr>f_type = Corner, f_x = 5, f_y = 3, f_confidence = 2\<rparr>
      \<notin> set (filterBySpacing [\<lparr>f_type = Corner, f_x = 3, f_y = 3, f_confidence = 1\<rparr>,
              \<lparr>f_type = Corner, f_x = 5, f_y = 3, f_confidence = 2\<rparr>] 5)
   \<and> (\<exists>g \<in> set (filterBySpacing [\<lparr>f_type = Corner, f_x = 3, f_y = 3, f_confidence = 1\<rparr>,
              \<lparr>f_type = Corner, f_x = 5, f_y = 3, f_confidence = 2\<rparr>] 5).
         distSq \<lparr>f_type = Corner, f_x = 5, f_y = 3, f_confidence = 2\<rparr> g < 5 * 5)"
proof -
  have r: "filterBySpacing [\<lparr>f_type = Corner, f_x = 3, f_y = 3, f_confidence = 1\<rparr>,
      \<lparr>f_type = Corner, f_x = 5, f_y = 3, f_confidence = 2\<rparr>] 5
      = [\<lparr>f_type = Corner, f_x = 3, f_y = 3, f_confidence = 1\<rparr>]"
    by (simp add: filterBySpacing_def keep_def distSq_def)
  have "\<lparr>f_type = Corner, f_x = 5, f_y = 3, f_confidence = 2\<rparr>
      \<notin> set (filterBySpacing [\<lparr>f_type = Corner, f_x = 3, f_y = 3, f_confidence = 1\<rparr>,
              \<lparr>f_type = Corner, f_x = 5, f_y = 3, f_confidence = 2\<rparr>] 5)"
    unfolding r by simp
  with suppression_in_generation_order
    [of spot_image 100 5 50 "[\<lparr>f_type = Corner, f_x = 3, f_y = 3, f_confidence = 1\<rparr>,
            \<lparr>f_type = Corner, f_x = 5, f_y = 3, f_confidence = 2\<rparr>]"]
  show ?thesis by simp
qed

text \<open>
  Two corner candidates two pixels apart, the second of higher confidence, minimum spacing
  5: the code keeps the first and rejects the second, although no kept candidate of equal or
  higher weight is near it; suppression in descending weight order would keep the second.
\<close>

theorem greedy_order_counterexample:
  "select_features [\<lparr>f_type = Corner, f_x = 3, f_y = 3, f_confidence = 1\<rparr>,
                    \<lparr>f_type = Corner, f_x = 5, f_y = 3, f_confidence = 2\<rparr>] 5 50
     = [\<lparr>f_type = Corner, f_x = 3, f_y = 3, f_confidence = 1\<rparr>]
   \<and> spec_greedy_nms [\<lparr>f_type = Corner, f_x = 3, f_y = 3, f_confidence = 1\<rparr>,
                       \<lparr>f_type = Corner, f_x = 5, f_y = 3, f_confidence = 2\<rparr>] 5 (nat (maxPoints 50))
     = [\<lparr>f_type = Corner, f_x = 5, f_y = 3, f_confidence = 2\<rparr>]"
  by (simp add: select_features_def filterBySpacing_def keep_def distSq_def sort_by_confidence_def
      slice0_def maxPoints_50 spec_greedy_nms_def)

text \<open>
  C3 (as amended). When the server call fails and the local detection finds at least one
  point, the query returns exactly the detected points, whatever the draws and the clock
  are, so two runs on the same image and parameters return the same points in the same
  order; a server response is passed on unchanged (its id and its points are the result). (The mock path is excluded: its points
  are a function of the draws of \<^verbatim>\<open>Math.random\<close>.)
\<close>

theorem local_detection_deterministic:
  "(imageId \<noteq> None \<and> imageId \<noteq> Some [] \<and> imageUrl \<noteq> None \<and> imageUrl \<noteq> Some []
      \<and> detectGeometricFeatures img t m d \<noteq> [] \<longrightarrow>
      queryFn imageId imageUrl True ApiFailed img d t m w rnd now
        = Inr \<lparr>ex_id = LocalId now, ex_points = detectGeometricFeatures img t m d\<rparr>
      \<and> map_sum id ex_points (queryFn imageId imageUrl True ApiFailed img d t m w rnd now)
        = map_sum id ex_points (queryFn imageId imageUrl True ApiFailed img d t m w rnd' now'))
   \<and> (imageId \<noteq> None \<and> imageId \<noteq> Some [] \<longrightarrow>
        queryFn imageId imageUrl g (ApiOk r) img d t m w rnd now = Inr r
        \<and> map_sum id ex_points (queryFn imageId imageUrl g (ApiOk r) img d t m w rnd now)
          = Inr (ex_points r))
   \<and> queryFn imageId imageUrl g (ApiOk r) img d t m w rnd now
        = queryFn imageId imageUrl g (ApiOk r) img d t m w rnd' now'"
proof (intro conjI impI)
  assume h: "imageId \<noteq> None \<and> imageId \<noteq> Some [] \<and> imageUrl \<noteq> None \<and> imageUrl \<noteq> Some []
      \<and> detectGeometricFeatures img t m d \<noteq> []"
  then show "queryFn imageId imageUrl True ApiFailed img d t m w rnd now
      = Inr \<lparr>ex_id = LocalId now, ex_points = detectGeometricFeatures img t m d\<rparr>"
    by (simp add: queryFn_local)
  from h show "map_sum id ex_points (queryFn imageId imageUrl True ApiFailed img d t m w rnd now)
      = map_sum id ex_points (queryFn imageId imageUrl True ApiFailed img d t m w rnd' now')"
    by (simp add: queryFn_local)
next
  assume h: "imageId \<noteq> None \<and> imageId \<noteq> Some []"
  then show "queryFn imageId imageUrl g (ApiOk r) img d t m w rnd now = Inr r"
    by (simp add: queryFn_server)
  from h show "map_sum id ex_points (queryFn imageId imageUrl g (ApiOk r) img d t m w rnd now)
      = Inr (ex_points r)"
    by (simp add: queryFn_server)
next
  show "queryFn imageId imageUrl g (ApiOk r) img d t m w rnd now
      = queryFn imageId imageUrl g (ApiOk r) img d t m w rnd' now'"
    by (simp add: queryFn_def)
qed

theorem local_detection_deterministic_witness:
  "Some ''image-1'' \<noteq> None \<and> Some ''image-1'' \<noteq> Some [] \<and> Some ''blob:1'' \<noteq> None
   \<and> Some ''blob:1'' \<noteq> Some [] \<and> detectGeometricFeatures (Loaded spot_image) 100 5 50 \<noteq> []
   \<and> queryFn (Some ''image-1'') (Some ''blob:1'') True ApiFailed (Loaded spot_image) 50 100 5 1 (steady (1 / 2)) 0
        = Inr \<lparr>ex_id = LocalId 0, ex_points = detectGeometricFeatures (Loaded spot_image) 100 5 50\<rparr>
   \<and> map_sum id ex_points (queryFn (Some ''image-1'') (Some ''blob:1'') True ApiFailed (Loaded spot_image)
          50 100 5 1 (steady (1 / 2)) 0)
        = map_sum id ex_points (queryFn (Some ''image-1'') (Some ''blob:1'') True ApiFailed (Loaded spot_image)
          50 100 5 1 (steady (3 / 4)) 1)
   \<and> queryFn (Some ''image-1'') (Some ''blob:1'') True
          (ApiOk \<lparr>ex_id = ServerId ''server-1'',
                  ex_points = [\<lparr>pt_x = 1 / 4, pt_y = 3 / 4, pt_weight = 2, pt_feature_type = ''edge''\<rparr>]\<rparr>)
          (Loaded spot_image) 50 100 5 1 (steady (1 / 2)) 0
        = Inr \<lparr>ex_id = ServerId ''server-1'',
               ex_points = [\<lparr>pt_x = 1 / 4, pt_y = 3 / 4, pt_weight = 2, pt_feature_type = ''edge''\<rparr>]\<rparr>"
proof -
  have h: "Some ''image-1'' \<noteq> None \<and> Some ''image-1'' \<noteq> Some [] \<and> Some ''blob:1'' \<noteq> None
      \<and> Some ''blob:1'' \<noteq> Some [] \<and> detectGeometricFeatures (Loaded spot_image) 100 5 50 \<noteq> []"
    using detect_spot_nonempty by simp
  from local_detection_deterministic
    [of "Some ''image-1''" "Some ''blob:1''" "Loaded spot_image" 100 5 50 1 "steady (1 / 2)" 0 "steady (3 / 4)" 1
        True "\<lparr>ex_id = ServerId ''server-1'',
                ex_points = [\<lparr>pt_x = 1 / 4, pt_y = 3 / 4, pt_weight = 2, pt_feature_type = ''edge''\<rparr>]\<rparr>"] h
  show ?thesis by blast
qed

text \<open>
  On a black image the local detection finds nothing and the query falls back to the mock
  points; with the same image and parameters, two sequences of draws give different points.
\<close>

theorem mock_extraction_not_deterministic:
  "map_sum id ex_points (queryFn (Some ''image-1'') (Some ''blob:1'') True ApiFailed
        (Loaded (uniform_image 7 7 (0, 0, 0, 255))) 50 100 5 1 (steady (1 / 2)) 0)
   \<noteq> map_sum id ex_points (queryFn (Some ''image-1'') (Some ''blob:1'') True ApiFailed
        (Loaded (uniform_image 7 7 (0, 0, 0, 255))) 50 100 5 1 (steady (3 / 4)) 0)"
proof -
  have e: "detectGeometricFeatures (Loaded (uniform_image 7 7 (0, 0, 0, 255))) 100 5 50 = []"
    by (rule geometric_blank [OF _ black_constant]) simp
  obtain ys zs where "generateMockPoints 50 100 5 1 (steady (1 / 2)) =
      \<lparr>pt_x = 1 / 2, pt_y = 1 / 2, pt_weight = 1, pt_feature_type = ''center''\<rparr> # ys"
    and "generateMockPoints 50 100 5 1 (steady (3 / 4)) =
      \<lparr>pt_x = 13 / 20, pt_y = 13 / 20, pt_weight = 1, pt_feature_type = ''center''\<rparr> # zs"
    using mock_half_first mock_three_quarter_first by blast
  then show ?thesis by (simp add: queryFn_mock [OF _ _ e])
qed

text \<open>
  C4 (as amended). The cap is \<open>maxPoints = floor (density / 100 * (220 - 20) + 20)\<close>. For a
  density of at least -10 (so that the cap is not negative) the detection returns at most
  \<open>maxPoints\<close> points; the mock path returns at most \<open>floor (density / 100 * 180 + 20)\<close>
  points; and for a threshold of at least 0 the detection returns no point on an image of
  constant intensity.
\<close>

theorem count_bound_and_blank:
  "maxPoints d = \<lfloor>d / 100 * (220 - 20) + 20\<rfloor>
   \<and> (- 10 \<le> d \<longrightarrow>
        int (length (detectFeaturesFromImageData img t m d)) \<le> maxPoints d
        \<and> int (length (detectGeometricFeatures (Loaded img) t m d)) \<le> maxPoints d)
   \<and> length (generateMockPoints d t m w rnd) \<le> nat \<lfloor>d / 100 * 180 + 20\<rfloor>
   \<and> (0 \<le> t \<and> constant_intensity img c \<longrightarrow>
        detectFeaturesFromImageData img t m d = []
        \<and> detectGeometricFeatures (Loaded img) t m d = [])"
proof (intro conjI impI)
  show "maxPoints d = \<lfloor>d / 100 * (220 - 20) + 20\<rfloor>" by (simp add: maxPoints_def)
next
  assume "- 10 \<le> d"
  then show "int (length (detectFeaturesFromImageData img t m d)) \<le> maxPoints d"
    unfolding detectFeatures_features by (rule length_select_features)
  then show "int (length (detectGeometricFeatures (Loaded img) t m d)) \<le> maxPoints d"
    by (simp only: length_geometric)
next
  show "length (generateMockPoints d t m w rnd) \<le> nat \<lfloor>d / 100 * 180 + 20\<rfloor>"
    by (rule length_mock_points)
next
  assume "0 \<le> t \<and> constant_intensity img c"
  then show "detectFeaturesFromImageData img t m d = []"
    using detect_blank by blast
next
  assume "0 \<le> t \<and> constant_intensity img c"
  then show "detectGeometricFeatures (Loaded img) t m d = []"
    using geometric_blank by blast
qed

theorem count_bound_and_blank_witness:
  "(- 10 \<le> (50::real) \<and> (0::real) \<le> 100 \<and> constant_intensity (uniform_image 7 7 (0, 0, 0, 255)) 0)
   \<and> int (length (detectFeaturesFromImageData (uniform_image 7 7 (0, 0, 0, 255)) 100 5 50)) \<le> maxPoints 50
   \<and> detectFeaturesFromImageData (uniform_image 7 7 (0, 0, 0, 255)) 100 5 50 = []
   \<and> detectGeometricFeatures (Loaded (uniform_image 7 7 (0, 0, 0, 255))) 100 5 50 = []"
  using count_bound_and_blank [of 50 "uniform_image 7 7 (0, 0, 0, 255)" 100 5 1 draws 0]
    black_constant [of 7 7 255]
  by simp

text \<open>
  A black 7 by 7 image with threshold -1 yields a point (the response 0 of its one corner
  candidate exceeds -100); and with density -50 the cap is -80, below any count.
\<close>

theorem blank_image_counterexample:
  "detectFeaturesFromImageData (uniform_image 7 7 (0, 0, 0, 255)) (- 1) 5 50 \<noteq> []
   \<and> \<not> int (length (detectFeaturesFromImageData (uniform_image 7 7 (0, 0, 0, 255)) 100 5 (- 50)))
        \<le> maxPoints (- 50)"
  using detect_black_negative_threshold by (simp add: maxPoints_def)

text \<open>
  C7 (as amended). \<^verbatim>\<open>detectGeometricFeatures\<close> never fails: it resolves with the empty
  list when the image does not load, when there is no canvas context, and (for a threshold
  of at least 0) on an image of constant intensity. The query of \<^verbatim>\<open>useAdjustPoints\<close> does
  not fail either, but it does not hand the empty list on: when the server call has failed
  and the detection is empty it returns the mock points.
\<close>

theorem empty_detection_then_mock:
  "detectGeometricFeatures LoadError t m d = []
   \<and> detectGeometricFeatures NoContext t m d = []
   \<and> (0 \<le> t \<and> constant_intensity img c \<longrightarrow> detectGeometricFeatures (Loaded img) t m d = [])
   \<and> (imageId \<noteq> None \<and> imageId \<noteq> Some [] \<and> detectGeometricFeatures il t m d = [] \<longrightarrow>
        queryFn imageId imageUrl g ApiFailed il d t m w rnd now
          = Inr \<lparr>ex_id = MockId now, ex_points = generateMockPoints d t m w rnd\<rparr>)"
proof (intro conjI impI)
  show "detectGeometricFeatures LoadError t m d = []" "detectGeometricFeatures NoContext t m d = []"
    by (simp_all add: detectGeometricFeatures_def)
next
  assume "0 \<le> t \<and> constant_intensity img c"
  then show "detectGeometricFeatures (Loaded img) t m d = []"
    using geometric_blank by blast
next
  assume "imageId \<noteq> None \<and> imageId \<noteq> Some [] \<and> detectGeometricFeatures il t m d = []"
  then show "queryFn imageId imageUrl g ApiFailed il d t m w rnd now
      = Inr \<lparr>ex_id = MockId now, ex_points = generateMockPoints d t m w rnd\<rparr>"
    using queryFn_mock by blast
qed

theorem empty_detection_then_mock_witness:
  "(0::real) \<le> 100 \<and> constant_intensity (uniform_image 7 7 (0, 0, 0, 255)) 0
   \<and> detectGeometricFeatures (Loaded (uniform_image 7 7 (0, 0, 0, 255))) 100 5 50 = []
   \<and> Some ''image-1'' \<noteq> None \<and> Some ''image-1'' \<noteq> Some []
   \<and> queryFn (Some ''image-1'') None False ApiFailed (Loaded (uniform_image 7 7 (0, 0, 0, 255)))
        50 100 5 1 draws 7
      = Inr \<lparr>ex_id = MockId 7, ex_points = generateMockPoints 50 100 5 1 draws\<rparr>"
  using empty_detection_then_mock
    [of 100 5 50 "uniform_image 7 7 (0, 0, 0, 255)" 0 "Some ''image-1''"
        "Loaded (uniform_image 7 7 (0, 0, 0, 255))" None False 1 draws 7]
    black_constant [of 7 7 255]
  by simp

text \<open>
  For a black image, with the server call failing, the query does not return the empty
  result of the detection but the mock points, of which there is at least one.
\<close>

theorem blank_image_gets_mock_points:
  "queryFn (Some ''image-1'') (Some ''blob:1'') True ApiFailed
       (Loaded (uniform_image 7 7 (0, 0, 0, 255))) 50 100 5 1 (steady (1 / 2)) 0
     = Inr \<lparr>ex_id = MockId 0, ex_points = generateMockPoints 50 100 5 1 (steady (1 / 2))\<rparr>
   \<and> generateMockPoints 50 100 5 1 (steady (1 / 2)) \<noteq> []"
proof -
  have e: "detectGeometricFeatures (Loaded (uniform_image 7 7 (0, 0, 0, 255))) 100 5 50 = []"
    by (rule geometric_blank [OF _ black_constant]) simp
  obtain ys where "generateMockPoints 50 100 5 1 (steady (1 / 2)) =
      \<lparr>pt_x = 1 / 2, pt_y = 1 / 2, pt_weight = 1, pt_feature_type = ''center''\<rparr> # ys"
    using mock_half_first by blast
  then show ?thesis by (simp add: queryFn_mock [OF _ _ e])
qed

end
